theory Spec2Isabelle
  imports Complex_Main "HOL-Library.Word"
begin

section \<open>JavaScript strings\<close>

text \<open>
  A JavaScript string is a sequence of UTF-16 code units. The source matches
  Chinese keywords and builds Chinese messages, so code units are kept as
  16-bit words; \<open>js\<close> embeds an ASCII literal.
\<close>

type_synonym jsstring = "16 word list"

definition js :: "string \<Rightarrow> jsstring" where
  "js s = map of_char s"

text \<open>White space as \<open>String.prototype.trim\<close> and the regular expression class
  \<open>\s\<close> see it (ECMAScript WhiteSpace and LineTerminator).\<close>

definition isWhiteSpace :: "16 word \<Rightarrow> bool" where
  "isWhiteSpace c =
     (c = 0x9 \<or> c = 0xA \<or> c = 0xB \<or> c = 0xC \<or> c = 0xD \<or> c = 0x20 \<or> c = 0xA0 \<or>
      c = 0x1680 \<or> (0x2000 \<le> c \<and> c \<le> 0x200A) \<or> c = 0x2028 \<or> c = 0x2029 \<or>
      c = 0x202F \<or> c = 0x205F \<or> c = 0x3000 \<or> c = 0xFEFF)"

definition isDigit :: "16 word \<Rightarrow> bool" where
  "isDigit c = (0x30 \<le> c \<and> c \<le> 0x39)"

definition trim :: "jsstring \<Rightarrow> jsstring" where
  "trim s = rev (dropWhile isWhiteSpace (rev (dropWhile isWhiteSpace s)))"

text \<open>\<open>if (s)\<close> on a value that is a string or absent: absent and the empty
  string are falsy.\<close>

fun truthy :: "jsstring option \<Rightarrow> bool" where
  "truthy None = False"
| "truthy (Some s) = (s \<noteq> [])"

text \<open>\<open>!text || !text.trim()\<close>, the emptiness test of embedText, chunkText and
  of the request handler.\<close>

definition blank :: "jsstring \<Rightarrow> bool" where
  "blank s = (s = [] \<or> trim s = [])"

fun startsWith :: "jsstring \<Rightarrow> jsstring \<Rightarrow> bool" where
  "startsWith [] s = True"
| "startsWith (p # ps) [] = False"
| "startsWith (p # ps) (c # cs) = (p = c \<and> startsWith ps cs)"

text \<open>\<open>/p/.test(s)\<close> for a literal pattern \<open>p\<close>: \<open>p\<close> occurs somewhere in \<open>s\<close>.\<close>

fun occursIn :: "jsstring \<Rightarrow> jsstring \<Rightarrow> bool" where
  "occursIn p [] = startsWith p []"
| "occursIn p (c # cs) = (startsWith p (c # cs) \<or> occursIn p cs)"

text \<open>\<open>String(n)\<close> for a non-negative integer.\<close>

fun decimal :: "nat \<Rightarrow> jsstring" where
  "decimal n =
     (if n < 10 then [of_nat (48 + n)]
      else decimal (n div 10) @ [of_nat (48 + n mod 10)])"

declare decimal.simps [simp del]

text \<open>
  \<open>s.replace(/\d+\.\s*/g, '')\<close>: scanning from the left, a match starts at a
  digit whose maximal run of digits is followed by a full stop, and extends over
  all white space after the full stop; a position where no match starts keeps
  its code unit. (A shorter run of digits cannot match: it would be followed by
  a digit.)
\<close>

function stripNumbering :: "jsstring \<Rightarrow> jsstring" where
  "stripNumbering [] = []"
| "stripNumbering (c # cs) =
     (case dropWhile isDigit (c # cs) of
        [] \<Rightarrow> c # stripNumbering cs
      | d # rest \<Rightarrow>
          if isDigit c \<and> d = 0x2E then stripNumbering (dropWhile isWhiteSpace rest)
          else c # stripNumbering cs)"
  by pat_completeness auto
termination
proof (relation "measure length", goal_cases)
  case 1
  show ?case by simp
next
  case (2 c cs)
  show ?case by simp
next
  case (3 c cs d rest)
  have "length (dropWhile isWhiteSpace rest) \<le> length rest"
    by (rule length_dropWhile_le)
  moreover have "length (d # rest) \<le> length (c # cs)"
    using 3(1) length_dropWhile_le [of isDigit "c # cs"] by simp
  ultimately show ?case by simp
next
  case (4 c cs d rest)
  show ?case by simp
qed

text \<open>\<open>s.replace(/\n+/g, ' ')\<close>: every maximal run of line feeds becomes one
  space.\<close>

function collapseNewlines :: "jsstring \<Rightarrow> jsstring" where
  "collapseNewlines [] = []"
| "collapseNewlines (c # cs) =
     (if c = 0xA then 0x20 # collapseNewlines (dropWhile (\<lambda>d. d = 0xA) cs)
      else c # collapseNewlines cs)"
  by pat_completeness auto
termination
proof (relation "measure length", goal_cases)
  case 1
  show ?case by simp
next
  case (2 c cs)
  have "length (dropWhile (\<lambda>d. d = 0xA) cs) \<le> length cs"
    by (rule length_dropWhile_le)
  then show ?case by simp
next
  case (3 c cs)
  show ?case by simp
qed

section \<open>Data model\<close>

text \<open>Numbers that JavaScript holds as doubles are modelled by the rationals,
  of which every finite double is one. A vector is \<open>number[]\<close>. A distance
  that the database computed, and the similarity read from it, can also be
  \<open>NaN\<close>: that is what the cosine distance to a vector of zeros is.\<close>

type_synonym jsvector = "rat list"

datatype jsnumber = Num rat | NaN

text \<open>A row of table \<open>document_chunks\<close> (migration add_rag_support). The
  free-form \<open>metadata\<close> column plays no part below and is left out.\<close>

record chunkRow =
  row_id :: jsstring
  pdf_id :: jsstring
  chunk_index :: int
  row_content :: jsstring
  embedding :: "jsvector option"
  page_number :: "int option"
  token_count :: "int option"

text \<open>A row of table \<open>pdfs\<close>.\<close>

record pdfRow =
  pdf_row_id :: jsstring
  userId :: jsstring
  pdf_name :: jsstring
  status :: jsstring
  totalChunks :: int
  totalPages :: "int option"
  errorMessage :: "jsstring option"

record database =
  pdfs :: "pdfRow list"
  document_chunks :: "chunkRow list"

text \<open>A chunk as the retrieval functions return it. \<open>pdfName\<close> and
  \<open>similarity\<close> are set by the vector search only; on a row read through
  \<open>findMany\<close> they are \<open>undefined\<close>.\<close>

record chunk =
  chunk_id :: jsstring
  pdfId :: jsstring
  pdfName :: "jsstring option"
  chunkIndex :: int
  content :: jsstring
  pageNumber :: "int option"
  tokenCount :: "int option"
  similarity :: "jsnumber option"

datatype queryType = original | decomposition | expansion | fallback

text \<open>The labels pushed on \<open>rewriteResult.steps\<close> (route.js lines 103, 111, 114,
  128, 171, 175, 182, 223, 227, 238), in the order of the source.\<close>

datatype step =
    NormalizationFailed | NormalizationDone | NormalizationEmpty
  | UseDecomposition | DecompositionFailed | DecompositionApiFailed
  | UseExpansion | ExpansionFailed | ExpansionApiFailed
  | RewriteFailed

record rewriteResult =
  originalQuery :: jsstring
  finalQuery :: jsstring
  queryType :: queryType
  steps :: "step list"
  normalizedQuery :: "jsstring option"
  subQueries :: "jsstring option"
  error :: "jsstring option"

section \<open>The environment\<close>

text \<open>
  The prompt of a chat-completion request is a fixed template around the data
  named here, so the request is identified by its template and that data.
\<close>

datatype llm_request =
    NormalizationPrompt jsstring
  | DecompositionPrompt jsstring
  | ExpansionPrompt jsstring
  | AnswerPrompt pdfRow "chunk list" jsstring

text \<open>
  What a \<open>fetch\<close> of the chat-completion endpoint can do: \<open>Rejected m\<close> is an
  exception with message \<open>m\<close> (the fetch or \<open>response.json()\<close> rejects, or the
  body is so malformed that reading the content throws); \<open>NotOk st body\<close> is a
  response whose \<open>ok\<close> is false; \<open>Content c\<close> is a parsed body whose
  \<open>choices?.[0]?.message?.content\<close> is \<open>c\<close> (\<open>None\<close> when absent).
\<close>

datatype fetch_result =
    Rejected jsstring
  | NotOk nat jsstring
  | Content "jsstring option"

datatype embed_input = Single jsstring | Batch "jsstring list"

text \<open>An element of \<open>data.data\<close>: \<open>null\<close>, or an object whose \<open>embedding\<close> is an
  array of numbers or is missing.\<close>

datatype embed_item = NullItem | Item "jsvector option"

text \<open>
  What a \<open>fetch\<close> of the embeddings endpoint can do. \<open>ERejected m\<close> is an
  exception with message \<open>m\<close> of the fetch or of \<open>response.json()\<close>; \<open>ENotOk\<close> is
  a response whose \<open>ok\<close> is false; \<open>ENull\<close> is a body that parses to \<open>null\<close>.
  \<open>EData d s\<close> is any other parsed body: \<open>d\<close> is \<open>data.data\<close> when that is an
  array and \<open>None\<close> otherwise, \<open>s\<close> is \<open>JSON.stringify(data)\<close>. \<open>EBadCost d s\<close> is
  such a body whose \<open>usage.cost\<close> is an object that cannot be converted to a
  string (its \<open>toString\<close> and \<open>valueOf\<close> are not functions), so that
  \<open>parseFloat\<close> and a template literal throw a TypeError on it.
\<close>

datatype embed_response =
    ERejected jsstring
  | ENotOk nat jsstring
  | ENull
  | EData "embed_item list option" jsstring
  | EBadCost "embed_item list option" jsstring

datatype session = NoSession | SessionOf jsstring

datatype request_body = BadJson jsstring | Body "jsstring option" "jsstring option"

text \<open>
  The calls a run makes, in order. Every function below takes the calls made so
  far and returns the calls it adds; the answers of the outside world may depend
  on everything that happened before.
\<close>

datatype event =
    AuthCall
  | FindFirstPdf jsstring jsstring
  | ChatCompletion llm_request fetch_result
  | EmbedTextCall jsstring
  | EmbeddingsFetch embed_input embed_response
  | QueryRaw "jsstring option" nat rat
  | FindManyChunks jsstring nat
  | Strategy nat "jsstring + chunk list"
  | ReadPdf jsstring "jsstring + jsstring \<times> int"
  | SplitText jsstring "jsstring + jsstring list"
  | InsertChunk chunkRow "jsstring option"
  | UpdatePdf jsstring jsstring "jsstring option"

text \<open>
  The outside world of a run. \<open>distance\<close> is the operator \<open>\<open><=>\<close>\<close> of the
  database; \<open>queryError\<close> and \<open>findError\<close> say whether the raw similarity query
  and a \<open>findMany\<close> throw, and with what message; \<open>insertError\<close> and
  \<open>updateError\<close> do so for an insert of a chunk (given the row and the dimension
  of the cast) and for an update of a document.
\<close>

record env =
  apiKey :: "jsstring option"
  chat :: "event list \<Rightarrow> llm_request \<Rightarrow> fetch_result"
  embeddings :: "event list \<Rightarrow> embed_input \<Rightarrow> embed_response"
  distance :: "jsvector \<Rightarrow> jsvector \<Rightarrow> jsnumber"
  queryError :: "event list \<Rightarrow> jsstring option"
  findError :: "event list \<Rightarrow> jsstring option"
  auth :: "event list \<Rightarrow> jsstring + session"
  readPdf :: "event list \<Rightarrow> jsstring \<Rightarrow> jsstring + jsstring \<times> int"
  splitter :: "event list \<Rightarrow> jsstring \<Rightarrow> jsstring + jsstring list"
  tokenizer :: "(jsstring \<Rightarrow> nat option) option"
  insertError :: "event list \<Rightarrow> chunkRow \<Rightarrow> nat \<Rightarrow> jsstring option"
  updateError :: "event list \<Rightarrow> jsstring \<Rightarrow> jsstring option"

section \<open>Query rewriting (app/api/chat-pdf/route.js, rewriteQuery)\<close>

text \<open>The regular expression of line 123: one of seven Chinese markers occurs
  in the query (he, yu, huozhe, yiji, qubie, duibi, bijiao: "and", "with",
  "or", "as well as", "difference", "contrast", "compare").\<close>

definition compoundMarkers :: "jsstring list" where
  "compoundMarkers =
     [[0x548C], [0x4E0E], [0x6216, 0x8005], [0x4EE5, 0x53CA], [0x533A, 0x522B],
      [0x5BF9, 0x6BD4], [0x6BD4, 0x8F83]]"

definition isCompoundQuery :: "jsstring \<Rightarrow> bool" where
  "isCompoundQuery q = list_ex (\<lambda>m. occursIn m q) compoundMarkers"

text \<open>
  The body of the \<open>try\<close> block is split at its three fetches. Each part returns
  the exception it ends with, if any, the result object as mutated up to that
  point, and the calls it made.
\<close>

definition normalization ::
  "env \<Rightarrow> event list \<Rightarrow> rewriteResult \<Rightarrow> (jsstring option \<times> rewriteResult) \<times> event list" where
  "normalization e h r =
     (let req = NormalizationPrompt (originalQuery r);
          res = chat e h req
      in ((case res of
             Rejected m \<Rightarrow> (Some m, r)
           | NotOk st body \<Rightarrow> (None, r\<lparr>steps := steps r @ [NormalizationFailed]\<rparr>)
           | Content c \<Rightarrow>
               (case map_option trim c of
                  Some (x # xs) \<Rightarrow>
                    (None, r\<lparr>normalizedQuery := Some (x # xs), finalQuery := x # xs,
                             steps := steps r @ [NormalizationDone]\<rparr>)
                | _ \<Rightarrow> (None, r\<lparr>steps := steps r @ [NormalizationEmpty]\<rparr>))),
          [ChatCompletion req res]))"

definition decompose ::
  "env \<Rightarrow> event list \<Rightarrow> rewriteResult \<Rightarrow> jsstring \<Rightarrow>
     (jsstring option \<times> rewriteResult) \<times> event list" where
  "decompose e h r queryForAnalysis =
     (let r1 = r\<lparr>queryType := decomposition, steps := steps r @ [UseDecomposition]\<rparr>;
          req = DecompositionPrompt queryForAnalysis;
          res = chat e h req
      in ((case res of
             Rejected m \<Rightarrow> (Some m, r1)
           | NotOk st body \<Rightarrow> (None, r1\<lparr>steps := steps r1 @ [DecompositionApiFailed]\<rparr>)
           | Content c \<Rightarrow>
               (case map_option trim c of
                  Some (x # xs) \<Rightarrow>
                    (None, r1\<lparr>subQueries := Some (x # xs),
                              finalQuery := collapseNewlines (stripNumbering (x # xs))\<rparr>)
                | _ \<Rightarrow> (None, r1\<lparr>steps := steps r1 @ [DecompositionFailed]\<rparr>))),
          [ChatCompletion req res]))"

definition expand ::
  "env \<Rightarrow> event list \<Rightarrow> rewriteResult \<Rightarrow> jsstring \<Rightarrow>
     (jsstring option \<times> rewriteResult) \<times> event list" where
  "expand e h r queryForAnalysis =
     (let r1 = r\<lparr>queryType := expansion, steps := steps r @ [UseExpansion]\<rparr>;
          req = ExpansionPrompt queryForAnalysis;
          res = chat e h req
      in ((case res of
             Rejected m \<Rightarrow> (Some m, r1)
           | NotOk st body \<Rightarrow> (None, r1\<lparr>steps := steps r1 @ [ExpansionApiFailed]\<rparr>)
           | Content c \<Rightarrow>
               (case map_option trim c of
                  Some (x # xs) \<Rightarrow> (None, r1\<lparr>finalQuery := x # xs\<rparr>)
                | _ \<Rightarrow> (None, r1\<lparr>steps := steps r1 @ [ExpansionFailed]\<rparr>))),
          [ChatCompletion req res]))"

definition rewriteTry ::
  "env \<Rightarrow> event list \<Rightarrow> rewriteResult \<Rightarrow> (jsstring option \<times> rewriteResult) \<times> event list" where
  "rewriteTry e h r0 =
     (case normalization e h r0 of
        ((Some m, r1), e1) \<Rightarrow> ((Some m, r1), e1)
      | ((None, r1), e1) \<Rightarrow>
          (let queryForAnalysis = finalQuery r1;
               isCompound = isCompoundQuery queryForAnalysis;
               (out, e2) = (if isCompound then decompose e (h @ e1) r1 queryForAnalysis
                            else expand e (h @ e1) r1 queryForAnalysis)
           in (out, e1 @ e2)))"

definition rewriteQuery :: "env \<Rightarrow> event list \<Rightarrow> jsstring \<Rightarrow> rewriteResult \<times> event list" where
  "rewriteQuery e h q =
     (let r0 = \<lparr>originalQuery = q, finalQuery = q, queryType = original, steps = [],
                normalizedQuery = None, subQueries = None, error = None\<rparr>
      in (case rewriteTry e h r0 of
            ((None, r), es) \<Rightarrow> (r, es)
          | ((Some m, r), es) \<Rightarrow>
              (r\<lparr>queryType := fallback, error := Some m,
                 steps := steps r @ [RewriteFailed]\<rparr>, es)))"


subsection \<open>Reading a run of the rewriter\<close>

text \<open>The reply a stage can use: the content, trimmed, when that is not
  empty; and the exception a call ended with.\<close>

fun reply :: "fetch_result \<Rightarrow> jsstring option" where
  "reply (Content (Some s)) = (if trim s = [] then None else Some (trim s))"
| "reply _ = None"

fun thrown :: "fetch_result \<Rightarrow> jsstring option" where
  "thrown (Rejected m) = Some m"
| "thrown _ = None"

text \<open>A call of the run that gave its stage nothing to use (a failure, an empty
  reply or an exception), and a call that threw.\<close>

fun noReply :: "event \<Rightarrow> bool" where
  "noReply (ChatCompletion req res) = (reply res = None)"
| "noReply _ = True"

fun threw :: "event \<Rightarrow> bool" where
  "threw (ChatCompletion req res) = (thrown res \<noteq> None)"
| "threw _ = False"

section \<open>Sample environments\<close>

definition sampleEnv :: "(llm_request \<Rightarrow> fetch_result) \<Rightarrow> (embed_input \<Rightarrow> embed_response) \<Rightarrow> env" where
  "sampleEnv c em =
     \<lparr>apiKey = Some (js ''sk-test''), chat = (\<lambda>h. c), embeddings = (\<lambda>h. em),
      distance = (\<lambda>u v. Num 0), queryError = (\<lambda>h. None), findError = (\<lambda>h. None),
      auth = (\<lambda>h. Inr (SessionOf (js ''u1''))),
      readPdf = (\<lambda>h p. Inr (js ''text'', 1)), splitter = (\<lambda>h t. Inr [t]),
      tokenizer = None, insertError = (\<lambda>h row d. None), updateError = (\<lambda>h i. None)\<rparr>"

text \<open>A language model that is down, and one that answers every rewriting
  prompt with the query it was given.\<close>

definition chatDown :: "llm_request \<Rightarrow> fetch_result" where
  "chatDown req = NotOk 503 []"

fun chatEcho :: "llm_request \<Rightarrow> fetch_result" where
  "chatEcho (NormalizationPrompt q) = Content (Some q)"
| "chatEcho (DecompositionPrompt q) = Content (Some q)"
| "chatEcho (ExpansionPrompt q) = Content (Some q)"
| "chatEcho (AnswerPrompt p cs m) = Content (Some (js ''ok''))"

definition chatReject :: "llm_request \<Rightarrow> fetch_result" where
  "chatReject req = Rejected (js ''fetch failed'')"

definition embedDown :: "embed_input \<Rightarrow> embed_response" where
  "embedDown i = ENotOk 503 []"

text \<open>"A he B" with the marker U+548C, and a model that splits it in two
  numbered questions.\<close>

definition queryAandB :: jsstring where
  "queryAandB = js ''A'' @ [0x548C] @ js ''B''"

fun chatSplit :: "llm_request \<Rightarrow> fetch_result" where
  "chatSplit (NormalizationPrompt q) = NotOk 503 []"
| "chatSplit (DecompositionPrompt q) = Content (Some (js ''1. A?'' @ [0xA] @ js ''2. B? ''))"
| "chatSplit (ExpansionPrompt q) = Content (Some q)"
| "chatSplit (AnswerPrompt p cs m) = Content (Some (js ''ok''))"

definition englishQuery :: jsstring where
  "englishQuery = js ''What are the differences between plan A and plan B?''"

section \<open>Embedding one text (lib/rag/embeddings.js, embedText)\<close>

text \<open>The messages of the errors embedText raises (lines 477, 481, 511, 519,
  524, 543), as code units. The first is "the text must not be empty", the last
  is the prefix "vectorisation failed: " that the \<open>catch\<close> block puts before
  every message.\<close>

definition msgTextEmpty :: jsstring where
  "msgTextEmpty = [0x6587, 0x672C, 0x4E0D, 0x80FD, 0x4E3A, 0x7A7A]"

definition msgApiKeyMissing :: jsstring where
  "msgApiKeyMissing = [0x274C, 0x20] @ js ''OPENAI_API_KEY '' @ [0x672A, 0x914D, 0x7F6E]"

definition msgApiError :: "nat \<Rightarrow> jsstring \<Rightarrow> jsstring" where
  "msgApiError st body =
     js ''API '' @ [0x9519, 0x8BEF] @ js '' ('' @ decimal st @ js ''): '' @ body"

definition msgBadFormat :: "jsstring \<Rightarrow> jsstring" where
  "msgBadFormat s = js ''API '' @ [0x8FD4, 0x56DE, 0x683C, 0x5F0F, 0x9519, 0x8BEF] @ js '': '' @ s"

definition msgNoEmbedding :: jsstring where
  "msgNoEmbedding =
     js ''API '' @ [0x8FD4, 0x56DE, 0x7F3A, 0x5C11] @ js '' embedding '' @ [0x5B57, 0x6BB5]"

definition msgNullItem :: jsstring where
  "msgNullItem = js ''Cannot read properties of null (reading 'embedding')''"

definition msgNullBody :: jsstring where
  "msgNullBody = js ''Cannot read properties of null (reading 'data')''"

definition msgNotPrimitive :: jsstring where
  "msgNotPrimitive = js ''Cannot convert object to primitive value''"

definition msgEmbedFailed :: "jsstring \<Rightarrow> jsstring" where
  "msgEmbedFailed m = [0x5411, 0x91CF, 0x5316, 0x5931, 0x8D25] @ js '': '' @ m"

text \<open>
  The two guards come before the \<open>try\<close> block, so their errors are not
  wrapped. Inside it every failure is rethrown with the prefix. A vector comes
  back only when \<open>data.data\<close> is a non-empty array whose first element has an
  array \<open>embedding\<close>, and the cost of line 531 can be written into its log
  line: the template literal is evaluated before the vector is returned.
\<close>

fun firstEmbedding :: "embed_item list option \<Rightarrow> jsstring \<Rightarrow> jsstring + jsvector" where
  "firstEmbedding None s = Inl (msgBadFormat s)"
| "firstEmbedding (Some []) s = Inl (msgBadFormat s)"
| "firstEmbedding (Some (NullItem # rest)) s = Inl msgNullItem"
| "firstEmbedding (Some (Item None # rest)) s = Inl msgNoEmbedding"
| "firstEmbedding (Some (Item (Some v) # rest)) s = Inr v"

definition embedText :: "env \<Rightarrow> event list \<Rightarrow> jsstring \<Rightarrow> (jsstring + jsvector) \<times> event list" where
  "embedText e h text =
     (if blank text then (Inl msgTextEmpty, [EmbedTextCall text])
      else if \<not> truthy (apiKey e) then (Inl msgApiKeyMissing, [EmbedTextCall text])
      else
        (let res = embeddings e (h @ [EmbedTextCall text]) (Single text)
         in ((case res of
                ERejected m \<Rightarrow> Inl (msgEmbedFailed m)
              | ENotOk st body \<Rightarrow> Inl (msgEmbedFailed (msgApiError st body))
              | ENull \<Rightarrow> Inl (msgEmbedFailed msgNullBody)
              | EData d s \<Rightarrow> map_sum msgEmbedFailed id (firstEmbedding d s)
              | EBadCost d s \<Rightarrow>
                  (case firstEmbedding d s of
                     Inl m \<Rightarrow> Inl (msgEmbedFailed m)
                   | Inr v \<Rightarrow> Inl (msgEmbedFailed msgNotPrimitive))),
             [EmbedTextCall text, EmbeddingsFetch (Single text) res])))"

section \<open>Vector search (lib/rag/retrieval.js, searchSimilarChunks)\<close>

record searchOptions =
  opt_pdfId :: "jsstring option"
  topK :: nat
  threshold :: rat

text \<open>
  The SQL text of lines 195 to 229, read as a query on the two tables: the join
  of chunks with their document, the rows whose embedding is not null, the
  optional document scope (\<open>if (pdfId)\<close>: a missing or empty id gives no scope),
  the threshold on \<open>1 - distance\<close>, the order by distance, and the limit. The
  distance operator \<open>\<open><=>\<close>\<close> belongs to the database and is a parameter of the
  environment. On \<open>double precision\<close> PostgreSQL computes \<open>1 - NaN\<close> as \<open>NaN\<close> and
  compares \<open>NaN\<close> as greater than every number: a row whose distance is \<open>NaN\<close>
  passes the threshold and comes after all numbers in the order.
\<close>

definition joinedRows :: "database \<Rightarrow> (chunkRow \<times> pdfRow) list" where
  "joinedRows db =
     concat (map (\<lambda>dc. map (\<lambda>p. (dc, p)) (filter (\<lambda>p. pdf_id dc = pdf_row_id p) (pdfs db)))
                 (document_chunks db))"

fun withDistance ::
  "env \<Rightarrow> jsvector \<Rightarrow> chunkRow \<times> pdfRow \<Rightarrow> (chunkRow \<times> pdfRow \<times> jsnumber) list" where
  "withDistance e qv (dc, p) =
     (case embedding dc of None \<Rightarrow> [] | Some v \<Rightarrow> [(dc, p, distance e v qv)])"

fun inScope :: "jsstring option \<Rightarrow> pdfRow \<Rightarrow> bool" where
  "inScope None p = True"
| "inScope (Some i) p = (if i = [] then True else pdf_row_id p = i)"

fun passesThreshold :: "rat \<Rightarrow> jsnumber \<Rightarrow> bool" where
  "passesThreshold th (Num d) = (th \<le> 1 - d)"
| "passesThreshold th NaN = True"

fun isNaN :: "jsnumber \<Rightarrow> bool" where
  "isNaN NaN = True"
| "isNaN (Num d) = False"

fun numberOf :: "jsnumber \<Rightarrow> rat" where
  "numberOf (Num d) = d"
| "numberOf NaN = 0"

definition orderByDistance ::
  "(chunkRow \<times> pdfRow \<times> jsnumber) list \<Rightarrow> (chunkRow \<times> pdfRow \<times> jsnumber) list" where
  "orderByDistance rows =
     sort_key (\<lambda>(dc, p, d). numberOf d) (filter (\<lambda>(dc, p, d). \<not> isNaN d) rows)
     @ filter (\<lambda>(dc, p, d). isNaN d) rows"

definition similarityQuery ::
  "env \<Rightarrow> database \<Rightarrow> jsvector \<Rightarrow> searchOptions \<Rightarrow> (chunkRow \<times> pdfRow \<times> jsnumber) list" where
  "similarityQuery e db qv opts =
     take (topK opts)
       (orderByDistance
          (filter (\<lambda>(dc, p, d). inScope (opt_pdfId opts) p \<and> passesThreshold (threshold opts) d)
             (concat (map (withDistance e qv) (joinedRows db)))))"

text \<open>\<open>parseFloat(x.toFixed(4))\<close>: the nearest multiple of 1/10000, a tie going
  away from zero; \<open>NaN\<close> stays \<open>NaN\<close>. The argument is the column \<open>similarity\<close>
  of the query, \<open>1 - distance\<close>.\<close>

definition toFixed4 :: "rat \<Rightarrow> rat" where
  "toFixed4 x =
     (if x < 0 then - (of_int \<lfloor>(- x) * 10000 + 1 / 2\<rfloor> / 10000)
      else of_int \<lfloor>x * 10000 + 1 / 2\<rfloor> / 10000)"

fun similarityOf :: "jsnumber \<Rightarrow> jsnumber" where
  "similarityOf (Num d) = Num (toFixed4 (1 - d))"
| "similarityOf NaN = NaN"

fun formatRow :: "chunkRow \<times> pdfRow \<times> jsnumber \<Rightarrow> chunk" where
  "formatRow (dc, p, d) =
     \<lparr>chunk_id = row_id dc, pdfId = pdf_id dc, pdfName = Some (pdf_name p),
      chunkIndex = chunk_index dc, content = row_content dc,
      pageNumber = page_number dc, tokenCount = token_count dc,
      similarity = Some (similarityOf d)\<rparr>"

definition msgSearchFailed :: "jsstring \<Rightarrow> jsstring" where
  "msgSearchFailed m = [0x5411, 0x91CF, 0x68C0, 0x7D22, 0x5931, 0x8D25] @ js '': '' @ m"

text \<open>An error of embedText and an error of the query (line 236) end in the
  same \<open>catch\<close> block, which throws them on with its prefix (line 270).\<close>

definition searchSimilarChunks ::
  "env \<Rightarrow> database \<Rightarrow> event list \<Rightarrow> jsstring \<Rightarrow> searchOptions \<Rightarrow>
     (jsstring + chunk list) \<times> event list" where
  "searchSimilarChunks e db h query opts =
     (case embedText e h query of
        (Inl m, evs) \<Rightarrow> (Inl (msgSearchFailed m), evs)
      | (Inr queryVector, evs) \<Rightarrow>
          ((case queryError e (h @ evs) of
              Some m \<Rightarrow> Inl (msgSearchFailed m)
            | None \<Rightarrow> Inr (map formatRow (similarityQuery e db queryVector opts))),
           evs @ [QueryRaw (opt_pdfId opts) (topK opts) (threshold opts)]))"

section \<open>Retrieval with fallbacks (app/api/chat-pdf/route.js, smartRetrieval)\<close>

fun rowToChunk :: "chunkRow \<Rightarrow> chunk" where
  "rowToChunk dc =
     \<lparr>chunk_id = row_id dc, pdfId = pdf_id dc, pdfName = None,
      chunkIndex = chunk_index dc, content = row_content dc,
      pageNumber = page_number dc, tokenCount = token_count dc, similarity = None\<rparr>"

text \<open>What \<open>prisma.documentChunk.findMany\<close> returns with \<open>where: { pdfId }\<close>,
  ascending \<open>chunkIndex\<close> and \<open>take: n\<close>, when it does not throw.\<close>

definition findManyChunks :: "database \<Rightarrow> jsstring \<Rightarrow> nat \<Rightarrow> chunk list" where
  "findManyChunks db pid n =
     map rowToChunk
       (take n (sort_key chunk_index (filter (\<lambda>dc. pdf_id dc = pid) (document_chunks db))))"

text \<open>\<open>xs.filter((_, idx) => idx % step === 0)\<close>.\<close>

definition everyNth :: "nat \<Rightarrow> 'a list \<Rightarrow> 'a list" where
  "everyNth step xs = map snd (filter (\<lambda>(idx, x). idx mod step = 0) (enumerate 0 xs))"

text \<open>\<open>Math.max(1, Math.ceil(totalChunks / 10))\<close>.\<close>

definition samplingStep :: "int \<Rightarrow> nat" where
  "samplingStep n = nat (max 1 \<lceil>(of_int n :: rat) / 10\<rceil>)"

text \<open>
  After each strategy the model logs \<open>Strategy n r\<close>, the number of the strategy
  and what it returned or threw, where the source has its log lines. No
  exception is caught here: one of a vector search or of a \<open>findMany\<close> ends the
  run.
\<close>

definition smartRetrieval ::
  "env \<Rightarrow> database \<Rightarrow> event list \<Rightarrow> jsstring \<Rightarrow> jsstring \<Rightarrow> pdfRow \<Rightarrow>
     (jsstring + chunk list) \<times> event list" where
  "smartRetrieval e db h query pid pdfRecord =
     (let (rewriteResult, e0) = rewriteQuery e h query;
          queryForRetrieval = finalQuery rewriteResult;
          (r1, e1) = searchSimilarChunks e db (h @ e0) queryForRetrieval
                       \<lparr>opt_pdfId = Some pid, topK = 5, threshold = 6 / 10\<rparr>;
          ev1 = e0 @ e1 @ [Strategy 1 r1]
      in (case r1 of
            Inl m \<Rightarrow> (Inl m, ev1)
          | Inr chunks \<Rightarrow>
              if 3 \<le> length chunks then (Inr chunks, ev1)
              else
                (let (r2, e2) = searchSimilarChunks e db (h @ ev1) queryForRetrieval
                                  \<lparr>opt_pdfId = Some pid, topK = 8, threshold = 4 / 10\<rparr>;
                     ev2 = ev1 @ e2 @ [Strategy 2 r2]
                 in (case r2 of
                       Inl m \<Rightarrow> (Inl m, ev2)
                     | Inr chunks2 \<Rightarrow>
                         if 3 \<le> length chunks2 then (Inr chunks2, ev2)
                         else
                           (let step = samplingStep (totalChunks pdfRecord)
                            in (case findError e (h @ ev2) of
                                  Some m \<Rightarrow>
                                    (Inl m, ev2 @ [FindManyChunks pid 100, Strategy 3 (Inl m)])
                                | None \<Rightarrow>
                                    (let allChunks = findManyChunks db pid 100;
                                         sampled = take 10 (everyNth step allChunks);
                                         ev3 = ev2 @ [FindManyChunks pid 100,
                                                      Strategy 3 (Inr sampled)]
                                     in if 0 < length sampled then (Inr sampled, ev3)
                                        else
                                          (case findError e (h @ ev3) of
                                             Some m \<Rightarrow>
                                               (Inl m, ev3 @ [FindManyChunks pid 10,
                                                              Strategy 4 (Inl m)])
                                           | None \<Rightarrow>
                                               (let fallbackChunks = findManyChunks db pid 10
                                                in (Inr fallbackChunks,
                                                    ev3 @ [FindManyChunks pid 10,
                                                           Strategy 4 (Inr fallbackChunks)]))))))))))"

text \<open>The strategies a run went through, with their outcomes, and its database
  calls.\<close>

fun strategyLog :: "event list \<Rightarrow> (nat \<times> (jsstring + chunk list)) list" where
  "strategyLog [] = []"
| "strategyLog (Strategy n r # evs) = (n, r) # strategyLog evs"
| "strategyLog (ev # evs) = strategyLog evs"

fun isDbCall :: "event \<Rightarrow> bool" where
  "isDbCall (QueryRaw pid k th) = True"
| "isDbCall (FindManyChunks pid n) = True"
| "isDbCall ev = False"

text \<open>A document of two chunks owned by user u1, an embedding service that
  answers every text with the same vector, and one that answers with zeros.\<close>

definition samplePdf :: pdfRow where
  "samplePdf =
     \<lparr>pdf_row_id = js ''p1'', userId = js ''u1'', pdf_name = js ''a.pdf'',
      status = js ''ready'', totalChunks = 2, totalPages = Some 1, errorMessage = None\<rparr>"

definition sampleRow :: "string \<Rightarrow> int \<Rightarrow> chunkRow" where
  "sampleRow i n =
     \<lparr>row_id = js i, pdf_id = js ''p1'', chunk_index = n, row_content = js ''text'',
      embedding = Some [1, 0], page_number = None, token_count = Some 1\<rparr>"

definition sampleDb :: database where
  "sampleDb = \<lparr>pdfs = [samplePdf], document_chunks = [sampleRow ''c0'' 0, sampleRow ''c1'' 1]\<rparr>"

fun embedFixed :: "jsvector \<Rightarrow> embed_input \<Rightarrow> embed_response" where
  "embedFixed v (Single t) = EData (Some [Item (Some v)]) []"
| "embedFixed v (Batch ts) = EData (Some (map (\<lambda>t. Item (Some v)) ts)) []"

text \<open>The embedding service answers, the database reports the same distance
  \<open>d\<close> for every pair of vectors.\<close>

definition envWithDistance :: "rat \<Rightarrow> env" where
  "envWithDistance d = (sampleEnv chatDown (embedFixed [1, 0]))\<lparr>distance := (\<lambda>u v. Num d)\<rparr>"


section \<open>The question handler (app/api/chat-pdf/route.js, POST)\<close>

text \<open>
  The JSON responses of the handler, one constructor for each \<open>return\<close> of the
  source, with the data the body carries beyond its fixed text; \<open>httpStatus\<close>
  is the status code, \<open>errorText\<close> the \<open>error\<close> field and \<open>details\<close> the \<open>details\<close>
  field of the body.
\<close>

datatype response =
    NotLoggedIn
  | MessageEmpty
  | NoPdfSelected
  | PdfNotFound
  | PdfProcessing jsstring
  | PdfFailed "jsstring option"
  | PdfStatusAbnormal jsstring
  | RetrievalUnavailable jsstring
  | AiNotConfigured
  | AiCallFailed jsstring
  | Answer jsstring "chunk list"
  | ServerError jsstring

fun httpStatus :: "response \<Rightarrow> nat" where
  "httpStatus NotLoggedIn = 401"
| "httpStatus MessageEmpty = 400"
| "httpStatus NoPdfSelected = 400"
| "httpStatus PdfNotFound = 404"
| "httpStatus (PdfProcessing st) = 400"
| "httpStatus (PdfFailed m) = 400"
| "httpStatus (PdfStatusAbnormal st) = 400"
| "httpStatus (RetrievalUnavailable m) = 500"
| "httpStatus AiNotConfigured = 500"
| "httpStatus (AiCallFailed m) = 500"
| "httpStatus (Answer a cs) = 200"
| "httpStatus (ServerError m) = 500"

text \<open>The two messages for a document that is not ready: "the PDF file is
  being processed, try again later" and "processing of the PDF file failed".\<close>

definition msgProcessing :: jsstring where
  "msgProcessing =
     js ''PDF '' @ [0x6587, 0x4EF6, 0x6B63, 0x5728, 0x5904, 0x7406, 0x4E2D, 0xFF0C,
                    0x8BF7, 0x7A0D, 0x540E, 0x518D, 0x8BD5]"

definition msgFailed :: jsstring where
  "msgFailed = js ''PDF '' @ [0x6587, 0x4EF6, 0x5904, 0x7406, 0x5931, 0x8D25]"

fun errorText :: "response \<Rightarrow> jsstring option" where
  "errorText NotLoggedIn = Some [0x8BF7, 0x5148, 0x767B, 0x5F55]"
| "errorText MessageEmpty = Some [0x6D88, 0x606F, 0x4E0D, 0x80FD, 0x4E3A, 0x7A7A]"
| "errorText NoPdfSelected =
     Some ([0x8BF7, 0x5148, 0x9009, 0x62E9] @ js '' PDF '' @ [0x6587, 0x4EF6])"
| "errorText PdfNotFound =
     Some (js ''PDF '' @ [0x6587, 0x4EF6, 0x4E0D, 0x5B58, 0x5728, 0x6216, 0x65E0, 0x6743,
                          0x8BBF, 0x95EE])"
| "errorText (PdfProcessing st) = Some msgProcessing"
| "errorText (PdfFailed m) = Some msgFailed"
| "errorText (PdfStatusAbnormal st) =
     Some (js ''PDF '' @ [0x6587, 0x4EF6, 0x72B6, 0x6001, 0x5F02, 0x5E38] @ js '': '' @ st)"
| "errorText (RetrievalUnavailable m) =
     Some (js ''RAG '' @ [0x68C0, 0x7D22, 0x670D, 0x52A1, 0x6682, 0x65F6, 0x4E0D, 0x53EF, 0x7528])"
| "errorText AiNotConfigured =
     Some (js ''AI '' @ [0x670D, 0x52A1, 0x914D, 0x7F6E, 0x9519, 0x8BEF, 0xFF0C, 0x8BF7,
                         0x8054, 0x7CFB, 0x7BA1, 0x7406, 0x5458])"
| "errorText (AiCallFailed m) =
     Some (js ''AI '' @ [0x670D, 0x52A1, 0x8C03, 0x7528, 0x5931, 0x8D25] @ js '': '' @ m)"
| "errorText (Answer a cs) = None"
| "errorText (ServerError m) = Some [0x670D, 0x52A1, 0x5668, 0x5185, 0x90E8, 0x9519, 0x8BEF]"

fun details :: "response \<Rightarrow> jsstring option" where
  "details (PdfFailed m) = m"
| "details (RetrievalUnavailable m) = Some m"
| "details AiNotConfigured = Some (js ''OpenRouter API key not configured'')"
| "details (ServerError m) = Some m"
| "details r = None"

text \<open>The message of the error thrown for a response of the language model
  that is not ok (lines 492 to 501).\<close>

definition aiStatusMessage :: "nat \<Rightarrow> jsstring" where
  "aiStatusMessage st =
     (if st = 401
      then js ''AI '' @ [0x670D, 0x52A1, 0x8BA4, 0x8BC1, 0x5931, 0x8D25, 0xFF0C, 0x8BF7,
                         0x68C0, 0x67E5] @ js '' API '' @ [0x5BC6, 0x94A5]
      else if st = 429
      then js ''AI '' @ [0x670D, 0x52A1, 0x8BF7, 0x6C42, 0x8FC7, 0x4E8E, 0x9891, 0x7E41, 0xFF0C,
                         0x8BF7, 0x7A0D, 0x540E, 0x91CD, 0x8BD5]
      else if st = 500
      then js ''AI '' @ [0x670D, 0x52A1, 0x5185, 0x90E8, 0x9519, 0x8BEF, 0xFF0C, 0x8BF7,
                         0x7A0D, 0x540E, 0x91CD, 0x8BD5]
      else js ''AI '' @ [0x670D, 0x52A1, 0x6682, 0x65F6, 0x4E0D, 0x53EF, 0x7528])
     @ js '' ('' @ [0x72B6, 0x6001, 0x7801] @ js '': '' @ decimal st @ js '')''"

definition msgAiEmpty :: jsstring where
  "msgAiEmpty = js ''AI '' @ [0x54CD, 0x5E94, 0x4E3A, 0x7A7A, 0xFF0C, 0x8BF7, 0x91CD, 0x8BD5]"

text \<open>\<open>prisma.PDF.findFirst\<close> on the id and the owner.\<close>

definition findFirstPdf :: "database \<Rightarrow> jsstring \<Rightarrow> jsstring \<Rightarrow> pdfRow option" where
  "findFirstPdf db pid uid = find (\<lambda>p. pdf_row_id p = pid \<and> userId p = uid) (pdfs db)"

text \<open>The part of the handler after retrieval: the key check and the call of
  the language model with the retrieved chunks as context.\<close>

definition answer ::
  "env \<Rightarrow> event list \<Rightarrow> pdfRow \<Rightarrow> chunk list \<Rightarrow> jsstring \<Rightarrow> response \<times> event list" where
  "answer e h pdfRecord relevantChunks message =
     (if \<not> truthy (apiKey e) then (AiNotConfigured, [])
      else
        (let req = AnswerPrompt pdfRecord relevantChunks message;
             res = chat e h req
         in ((case res of
                Rejected m \<Rightarrow> AiCallFailed m
              | NotOk st body \<Rightarrow> AiCallFailed (aiStatusMessage st)
              | Content c \<Rightarrow>
                  (case c of
                     Some (x # xs) \<Rightarrow> Answer (x # xs) relevantChunks
                   | _ \<Rightarrow> AiCallFailed msgAiEmpty)),
             [ChatCompletion req res])))"

definition POST :: "env \<Rightarrow> database \<Rightarrow> event list \<Rightarrow> request_body \<Rightarrow> response \<times> event list" where
  "POST e db h body =
     (case auth e h of
        Inl m \<Rightarrow> (ServerError m, [AuthCall])
      | Inr NoSession \<Rightarrow> (NotLoggedIn, [AuthCall])
      | Inr (SessionOf uid) \<Rightarrow>
          (case body of
             BadJson m \<Rightarrow> (ServerError m, [AuthCall])
           | Body None givenId \<Rightarrow> (MessageEmpty, [AuthCall])
           | Body (Some message) givenId \<Rightarrow>
               if trim message = [] then (MessageEmpty, [AuthCall])
               else
                 (case givenId of
                    None \<Rightarrow> (NoPdfSelected, [AuthCall])
                  | Some pid \<Rightarrow>
                      if pid = [] then (NoPdfSelected, [AuthCall])
                      else
                        (let ev0 = [AuthCall, FindFirstPdf pid uid]
                         in (case findFirstPdf db pid uid of
                               None \<Rightarrow> (PdfNotFound, ev0)
                             | Some pdfRecord \<Rightarrow>
                                 if status pdfRecord = js ''processing''
                                 then (PdfProcessing (status pdfRecord), ev0)
                                 else if status pdfRecord = js ''failed''
                                 then (PdfFailed (errorMessage pdfRecord), ev0)
                                 else if status pdfRecord \<noteq> js ''ready''
                                 then (PdfStatusAbnormal (status pdfRecord), ev0)
                                 else
                                   (case smartRetrieval e db (h @ ev0) message pid pdfRecord of
                                      (Inl m, ev1) \<Rightarrow> (RetrievalUnavailable m, ev0 @ ev1)
                                    | (Inr relevantChunks, ev1) \<Rightarrow>
                                        (let (resp, ev2) =
                                               answer e (h @ ev0 @ ev1) pdfRecord
                                                 relevantChunks message
                                         in (resp, ev0 @ ev1 @ ev2))))))))"

text \<open>The calls that belong to retrieval and answering: everything but the
  session check and the lookup of the document.\<close>

fun isRetrievalCall :: "event \<Rightarrow> bool" where
  "isRetrievalCall AuthCall = False"
| "isRetrievalCall (FindFirstPdf pid uid) = False"
| "isRetrievalCall ev = True"

text \<open>The sample document while it is processed, and after its processing
  failed.\<close>

definition dbWithStatus :: "string \<Rightarrow> jsstring option \<Rightarrow> database" where
  "dbWithStatus st msg =
     sampleDb\<lparr>pdfs := [samplePdf\<lparr>status := js st, errorMessage := msg\<rparr>]\<rparr>"

definition sampleBody :: request_body where
  "sampleBody = Body (Some (js ''What is the refund policy?'')) (Some (js ''p1''))"

section \<open>Embedding many texts (lib/rag/embeddings.js, embedBatch)\<close>

text \<open>\<open>new Array(1024).fill(0)\<close>, the vector pushed for a text whose retry
  failed (line 638).\<close>

definition zeroVector :: jsvector where
  "zeroVector = replicate 1024 0"

text \<open>
  The \<open>catch\<close> block of a batch: every text of the batch goes through embedText
  on its own, and a text whose call throws gets the zero vector. An element of
  the result is \<open>None\<close> where the source holds \<open>undefined\<close>.
\<close>

fun retryEach ::
  "env \<Rightarrow> event list \<Rightarrow> jsstring list \<Rightarrow> jsvector option list \<times> event list" where
  "retryEach e h [] = ([], [])"
| "retryEach e h (t # ts) =
     (let (r, ev1) = embedText e h t;
          v = (case r of Inr vector \<Rightarrow> Some vector | Inl m \<Rightarrow> Some zeroVector);
          (vs, ev2) = retryEach e (h @ ev1) ts
      in (v # vs, ev1 @ ev2))"

text \<open>\<open>data.data.map(item => item.embedding)\<close>, which throws on a \<open>null\<close> item.\<close>

fun itemEmbeddings :: "embed_item list \<Rightarrow> jsvector option list option" where
  "itemEmbeddings [] = Some []"
| "itemEmbeddings (NullItem # items) = None"
| "itemEmbeddings (Item v # items) = map_option ((#) v) (itemEmbeddings items)"

text \<open>The \<open>try\<close> block of a batch of \<open>n\<close> texts up to the push of line 612,
  given what the fetch did: the vectors it pushes, or \<open>None\<close> when it throws
  before (response not ok, rejected fetch or body, a \<open>null\<close> body, \<open>data.data\<close>
  missing or of another length, a \<open>null\<close> item).\<close>

fun batchVectors :: "embed_response \<Rightarrow> nat \<Rightarrow> jsvector option list option" where
  "batchVectors (EData (Some items) s) n =
     (if length items \<noteq> n then None else itemEmbeddings items)"
| "batchVectors (EBadCost (Some items) s) n =
     (if length items \<noteq> n then None else itemEmbeddings items)"
| "batchVectors res n = None"

text \<open>Lines 615 to 617, after the push and still inside the \<open>try\<close> block:
  \<open>parseFloat(data.usage.cost)\<close> throws on a cost that cannot be converted.\<close>

fun costThrows :: "embed_response \<Rightarrow> bool" where
  "costThrows (EBadCost d s) = True"
| "costThrows res = False"

text \<open>
  One round of the loop: what it appends to \<open>results\<close>, and its calls. When the
  \<open>try\<close> block throws, the \<open>catch\<close> block retries every text of the batch; when
  it throws after the push, the vectors of the batch are in \<open>results\<close> already
  and those of the retries come after them.
\<close>

definition embedOneBatch ::
  "env \<Rightarrow> event list \<Rightarrow> jsstring list \<Rightarrow> jsvector option list \<times> event list" where
  "embedOneBatch e h batch =
     (let res = embeddings e h (Batch batch);
          ev = EmbeddingsFetch (Batch batch) res
      in (case batchVectors res (length batch) of
            Some vectors \<Rightarrow>
              if costThrows res
              then (let (vs, evs) = retryEach e (h @ [ev]) batch in (vectors @ vs, ev # evs))
              else (vectors, [ev])
          | None \<Rightarrow>
              (let (vs, evs) = retryEach e (h @ [ev]) batch in (vs, ev # evs))))"

text \<open>
  The \<open>for\<close> loop over the batches, with its index \<open>i\<close>, the results and the calls
  so far. With a batch size of 0 the index never moves and the loop does not
  end; the function is partial for that reason.
\<close>

partial_function (option) batchLoop ::
  "env \<Rightarrow> event list \<Rightarrow> jsstring list \<Rightarrow> nat \<Rightarrow> nat \<Rightarrow> jsvector option list \<Rightarrow> event list \<Rightarrow>
     (jsvector option list \<times> event list) option" where
  "batchLoop e h texts batchSize i results evs =
     (if i < length texts
      then (let batch = take batchSize (drop i texts);
                out = embedOneBatch e (h @ evs) batch
            in batchLoop e h texts batchSize (i + batchSize) (results @ fst out) (evs @ snd out))
      else Some (results, evs))"

definition embedBatch ::
  "env \<Rightarrow> event list \<Rightarrow> jsstring list \<Rightarrow> nat \<Rightarrow>
     ((jsstring + jsvector option list) \<times> event list) option" where
  "embedBatch e h texts batchSize =
     (if texts = [] then Some (Inr [], [])
      else if \<not> truthy (apiKey e) then Some (Inl msgApiKeyMissing, [])
      else map_option (\<lambda>(results, evs). (Inr results, evs))
             (batchLoop e h texts batchSize 0 [] []))"

text \<open>The calls of the embedder.\<close>

fun isEmbeddingCall :: "event \<Rightarrow> bool" where
  "isEmbeddingCall (EmbedTextCall t) = True"
| "isEmbeddingCall (EmbeddingsFetch i r) = True"
| "isEmbeddingCall ev = False"

text \<open>An embedding service of a model with three dimensions that refuses
  batches and the text "b".\<close>

fun embedPartly :: "embed_input \<Rightarrow> embed_response" where
  "embedPartly (Batch ts) = ENotOk 429 []"
| "embedPartly (Single t) =
     (if t = js ''b'' then ENotOk 429 []
      else EData (Some [Item (Some [1 / 2, 1 / 2, 1 / 2])]) [])"

text \<open>An embedding service whose every reply carries, with its vectors, a
  \<open>usage.cost\<close> that cannot be converted.\<close>

fun embedBadCost :: "embed_input \<Rightarrow> embed_response" where
  "embedBadCost (Single t) = EBadCost (Some [Item (Some [1 / 2])]) []"
| "embedBadCost (Batch ts) = EBadCost (Some (map (\<lambda>t. Item (Some [1 / 2])) ts)) []"

section \<open>Chunking (lib/rag/chunking.js, chunkText)\<close>

text \<open>A chunk as the chunker hands it to the ingestion job: \<open>chunkIndex\<close>,
  \<open>content\<close> and \<open>tokenCount\<close> of the source.\<close>

record textChunk =
  tc_index :: nat
  tc_content :: jsstring
  tc_tokenCount :: nat

text \<open>countTokens: the tokenizer when there is one and it does not throw,
  otherwise \<open>Math.ceil(text.length / 4)\<close>.\<close>

definition countTokens :: "env \<Rightarrow> jsstring \<Rightarrow> nat" where
  "countTokens e text =
     (if text = [] then 0
      else (case tokenizer e of
              None \<Rightarrow> (length text + 3) div 4
            | Some encode \<Rightarrow>
                (case encode text of Some n \<Rightarrow> n | None \<Rightarrow> (length text + 3) div 4)))"

definition msgChunkingFailed :: "jsstring \<Rightarrow> jsstring" where
  "msgChunkingFailed m = [0x6587, 0x672C, 0x5206, 0x5757, 0x5931, 0x8D25] @ js '': '' @ m"

text \<open>The text splitter is a library: it is a parameter of the environment,
  returning the page contents of its documents or throwing.\<close>

definition chunkText ::
  "env \<Rightarrow> event list \<Rightarrow> jsstring \<Rightarrow> (jsstring + textChunk list) \<times> event list" where
  "chunkText e h text =
     (if blank text then (Inr [], [])
      else
        (let res = splitter e h text
         in ((case res of
                Inl m \<Rightarrow> Inl (msgChunkingFailed m)
              | Inr docs \<Rightarrow>
                  Inr (map (\<lambda>(index, c). \<lparr>tc_index = index, tc_content = c,
                                           tc_tokenCount = countTokens e c\<rparr>)
                           (enumerate 0 docs))),
             [SplitText text res])))"

section \<open>The ingestion job (app/api/pdf/upload/route.js, processPdfInBackground)\<close>

text \<open>\<open>vectors[i]\<close>, \<open>undefined\<close> past the end, and
  \<open>vectors[0]?.length || VECTOR_DIMENSION\<close> with the constant 1024 of line 18.\<close>

definition vectorAt :: "jsvector option list \<Rightarrow> nat \<Rightarrow> jsvector option" where
  "vectorAt vectors i = (if i < length vectors then vectors ! i else None)"

definition actualDimension :: "jsvector option list \<Rightarrow> nat" where
  "actualDimension vectors =
     (case vectorAt vectors 0 of
        None \<Rightarrow> 1024
      | Some v \<Rightarrow> if length v = 0 then 1024 else length v)"

text \<open>The row an iteration of the loop writes: with the vector when it is
  there and not empty (the raw INSERT), without it otherwise (the ORM
  \<open>create\<close>). The chunker's metadata of this job has no page number.\<close>

definition chunkRowOf :: "jsstring \<Rightarrow> nat \<Rightarrow> textChunk \<Rightarrow> jsvector option \<Rightarrow> chunkRow" where
  "chunkRowOf pid i c vector =
     \<lparr>row_id = js ''chunk_'' @ pid @ js ''_'' @ decimal i, pdf_id = pid,
      chunk_index = int (tc_index c), row_content = tc_content c,
      embedding = (case vector of None \<Rightarrow> None | Some v \<Rightarrow> if v = [] then None else Some v),
      page_number = None, token_count = Some (int (tc_tokenCount c))\<rparr>"

definition msgTooManyFailures :: "nat \<Rightarrow> jsstring" where
  "msgTooManyFailures n =
     [0x4FDD, 0x5B58, 0x5931, 0x8D25, 0x8FC7, 0x591A] @ js '' ('' @ decimal n @ js '' '' @
     [0x4E2A] @ js '')'' @ [0xFF0C, 0x505C, 0x6B62, 0x5904, 0x7406]"

text \<open>
  The loop of lines 161 to 218 over the chunks from index \<open>i\<close> on, with the
  database, \<open>successCount\<close> and \<open>failCount\<close> as they stand. Whether the database
  takes a row is its own affair (\<open>insertError\<close>, given the row and the dimension
  of the cast). The loop ends with \<open>successCount\<close>, or with the error thrown at
  the sixth failure.
\<close>

fun insertLoop ::
  "env \<Rightarrow> event list \<Rightarrow> jsstring \<Rightarrow> nat \<Rightarrow> jsvector option list \<Rightarrow> textChunk list \<Rightarrow> nat \<Rightarrow>
     database \<Rightarrow> nat \<Rightarrow> nat \<Rightarrow> (jsstring + nat) \<times> database \<times> event list" where
  "insertLoop e h pid dimension vectors [] i db successCount failCount = (Inr successCount, db, [])"
| "insertLoop e h pid dimension vectors (c # cs) i db successCount failCount =
     (let row = chunkRowOf pid i c (vectorAt vectors i);
          err = insertError e h row dimension;
          ev = InsertChunk row err
      in (case err of
            None \<Rightarrow>
              (let (r, db', evs) =
                     insertLoop e (h @ [ev]) pid dimension vectors cs (i + 1)
                       (db\<lparr>document_chunks := document_chunks db @ [row]\<rparr>)
                       (successCount + 1) failCount
               in (r, db', ev # evs))
          | Some m \<Rightarrow>
              if 5 < failCount + 1 then (Inl (msgTooManyFailures (failCount + 1)), db, [ev])
              else
                (let (r, db', evs) =
                       insertLoop e (h @ [ev]) pid dimension vectors cs (i + 1) db
                         successCount (failCount + 1)
                 in (r, db', ev # evs))))"

text \<open>
  Lines 140 to 218, the job up to the end of the loop: its error, or
  \<open>successCount\<close> and the number of pages. embedBatch is called with its
  default batch size of 50.
\<close>

definition ingest ::
  "env \<Rightarrow> database \<Rightarrow> event list \<Rightarrow> jsstring \<Rightarrow> jsstring \<Rightarrow>
     ((jsstring + nat \<times> int) \<times> database \<times> event list) option" where
  "ingest e db h pid filePath =
     (let pdfData = readPdf e h filePath;
          ev0 = [ReadPdf filePath pdfData]
      in (case pdfData of
            Inl m \<Rightarrow> Some (Inl m, db, ev0)
          | Inr (text, numpages) \<Rightarrow>
              (case chunkText e (h @ ev0) text of
                 (Inl m, ev1) \<Rightarrow> Some (Inl m, db, ev0 @ ev1)
               | (Inr chunks, ev1) \<Rightarrow>
                   (case embedBatch e (h @ ev0 @ ev1) (map tc_content chunks) 50 of
                      None \<Rightarrow> None
                    | Some (Inl m, ev2) \<Rightarrow> Some (Inl m, db, ev0 @ ev1 @ ev2)
                    | Some (Inr vectors, ev2) \<Rightarrow>
                        (let (r, db', ev3) =
                               insertLoop e (h @ ev0 @ ev1 @ ev2) pid (actualDimension vectors)
                                 vectors chunks 0 db 0 0
                         in Some (map_sum id (\<lambda>n. (n, numpages)) r, db',
                                  ev0 @ ev1 @ ev2 @ ev3))))))"

definition msgUnknownError :: jsstring where
  "msgUnknownError = [0x672A, 0x77E5, 0x9519, 0x8BEF]"

text \<open>\<open>prisma.pDF.update\<close> on the id: the database may refuse, and it refuses
  when no row has the id.\<close>

definition updatePdf ::
  "env \<Rightarrow> event list \<Rightarrow> database \<Rightarrow> jsstring \<Rightarrow> (pdfRow \<Rightarrow> pdfRow) \<Rightarrow> jsstring + database" where
  "updatePdf e h db pid f =
     (case updateError e h pid of
        Some m \<Rightarrow> Inl m
      | None \<Rightarrow>
          if list_ex (\<lambda>p. pdf_row_id p = pid) (pdfs db)
          then Inr (db\<lparr>pdfs := map (\<lambda>p. if pdf_row_id p = pid then f p else p) (pdfs db)\<rparr>)
          else Inl (js ''Record to update not found.''))"

text \<open>The \<open>data\<close> of the two updates: \<open>ready\<close> with \<open>successCount\<close> and the
  number of pages, \<open>failed\<close> with \<open>error.message || unknown\<close>.\<close>

definition markReady :: "nat \<Rightarrow> int \<Rightarrow> pdfRow \<Rightarrow> pdfRow" where
  "markReady successCount numpages p =
     p\<lparr>status := js ''ready'', totalChunks := int successCount, totalPages := Some numpages\<rparr>"

definition markFailed :: "jsstring \<Rightarrow> pdfRow \<Rightarrow> pdfRow" where
  "markFailed m p =
     p\<lparr>status := js ''failed'', errorMessage := Some (if m = [] then msgUnknownError else m)\<rparr>"

text \<open>
  The whole job: the update to \<open>ready\<close> ends the \<open>try\<close> block, an error of it
  is a job error like any other; the \<open>catch\<close> block writes \<open>failed\<close>, and an
  error of that update is only logged.
\<close>

definition processPdfInBackground ::
  "env \<Rightarrow> database \<Rightarrow> event list \<Rightarrow> jsstring \<Rightarrow> jsstring \<Rightarrow> (database \<times> event list) option" where
  "processPdfInBackground e db h pid filePath =
     (case ingest e db h pid filePath of
        None \<Rightarrow> None
      | Some (r, db1, ev1) \<Rightarrow>
          (let (attempt, db2, ev2) =
                 (case r of
                    Inl m \<Rightarrow> (Inl m, db1, ev1)
                  | Inr (successCount, numpages) \<Rightarrow>
                      (case updatePdf e (h @ ev1) db1 pid (markReady successCount numpages) of
                         Inl m \<Rightarrow> (Inl m, db1, ev1 @ [UpdatePdf pid (js ''ready'') (Some m)])
                       | Inr db' \<Rightarrow> (Inr (), db', ev1 @ [UpdatePdf pid (js ''ready'') None])))
           in (case attempt of
                 Inr u \<Rightarrow> Some (db2, ev2)
               | Inl m \<Rightarrow>
                   (case updatePdf e (h @ ev2) db2 pid (markFailed m) of
                      Inl m' \<Rightarrow> Some (db2, ev2 @ [UpdatePdf pid (js ''failed'') (Some m')])
                    | Inr db3 \<Rightarrow> Some (db3, ev2 @ [UpdatePdf pid (js ''failed'') None])))))"

text \<open>Reading a run of the job: the inserts the database took and refused,
  and a source that could not be read or split.\<close>

fun insertOk :: "event \<Rightarrow> bool" where
  "insertOk (InsertChunk row None) = True"
| "insertOk ev = False"

fun insertFailed :: "event \<Rightarrow> bool" where
  "insertFailed (InsertChunk row (Some m)) = True"
| "insertFailed ev = False"

fun sourceFailed :: "event \<Rightarrow> bool" where
  "sourceFailed (ReadPdf path (Inl m)) = True"
| "sourceFailed (SplitText text (Inl m)) = True"
| "sourceFailed ev = False"

text \<open>The rows of a document in table \<open>pdfs\<close>.\<close>

definition pdfRowsOf :: "database \<Rightarrow> jsstring \<Rightarrow> pdfRow list" where
  "pdfRowsOf db pid = filter (\<lambda>p. pdf_row_id p = pid) (pdfs db)"

section \<open>More sample data\<close>

text \<open>A language model that answers the decomposition prompt with numbering
  and nothing else.\<close>

fun chatNumbering :: "llm_request \<Rightarrow> fetch_result" where
  "chatNumbering (NormalizationPrompt q) = NotOk 503 []"
| "chatNumbering (DecompositionPrompt q) = Content (Some (js ''1. '' @ [0xA] @ js ''2. ''))"
| "chatNumbering (ExpansionPrompt q) = Content (Some q)"
| "chatNumbering (AnswerPrompt p cs m) = Content (Some (js ''ok''))"


text \<open>A document of \<open>n\<close> chunks with indices 0 to \<open>n - 1\<close>, whose row says so.\<close>

definition longRow :: "nat \<Rightarrow> chunkRow" where
  "longRow i =
     \<lparr>row_id = js ''c'' @ decimal i, pdf_id = js ''p1'', chunk_index = int i,
      row_content = js ''text'', embedding = Some [1, 0], page_number = None,
      token_count = Some 1\<rparr>"

definition longPdf :: "nat \<Rightarrow> pdfRow" where
  "longPdf n = samplePdf\<lparr>totalChunks := int n\<rparr>"

definition longDb :: "nat \<Rightarrow> database" where
  "longDb n = \<lparr>pdfs = [longPdf n], document_chunks = map longRow [0..<n]\<rparr>"

text \<open>A chunk of the document of three chunks as a vector search returns it at
  distance 0.5.\<close>

definition halfChunk :: "nat \<Rightarrow> chunk" where
  "halfChunk i = formatRow (longRow i, longPdf 3, Num (1 / 2))"




text \<open>A document just uploaded, with no chunk yet.\<close>

definition uploadedDb :: database where
  "uploadedDb = \<lparr>pdfs = [samplePdf\<lparr>status := js ''processing'', totalChunks := 0\<rparr>],
                 document_chunks = []\<rparr>"

text \<open>
  An embedding model of three dimensions whose service refuses every batch and
  every text but "c0"; a text that the splitter cuts in seven chunks; and a
  database that refuses a vector whose length is not the dimension of the
  cast, as the type \<open>vector(n)\<close> does.
\<close>

fun embedFirstOnly :: "embed_input \<Rightarrow> embed_response" where
  "embedFirstOnly (Batch ts) = ENotOk 429 []"
| "embedFirstOnly (Single t) =
     (if t = js ''c0'' then EData (Some [Item (Some [1 / 2, 1 / 2, 1 / 2])]) []
      else ENotOk 429 [])"

definition msgCast :: "nat \<Rightarrow> nat \<Rightarrow> jsstring" where
  "msgCast d n = js ''expected '' @ decimal d @ js '' dimensions, not '' @ decimal n"

definition castError :: "chunkRow \<Rightarrow> nat \<Rightarrow> jsstring option" where
  "castError row d =
     (case embedding row of
        None \<Rightarrow> None
      | Some v \<Rightarrow> if length v = d then None else Some (msgCast d (length v)))"

definition sevenTexts :: "jsstring list" where
  "sevenTexts = [js ''c0'', js ''c1'', js ''c2'', js ''c3'', js ''c4'', js ''c5'', js ''c6'']"

definition threeDimensions :: env where
  "threeDimensions =
     (sampleEnv chatDown embedFirstOnly)
       \<lparr>splitter := (\<lambda>h t. Inr sevenTexts), insertError := (\<lambda>h row d. castError row d)\<rparr>"

text \<open>The chunk of the sample for a text, and the row the job writes for it
  with a vector.\<close>

definition sampleChunk :: "nat \<Rightarrow> string \<Rightarrow> textChunk" where
  "sampleChunk i c = \<lparr>tc_index = i, tc_content = js c, tc_tokenCount = (length c + 3) div 4\<rparr>"

definition vectorRow :: "nat \<Rightarrow> string \<Rightarrow> jsvector \<Rightarrow> chunkRow" where
  "vectorRow i c v = chunkRowOf (js ''p1'') i (sampleChunk i c) (Some v)"

text \<open>The calls of the job on this sample: the batch and the seven retries,
  the seven inserts, and the update of the document.\<close>

definition failedRetry :: "string \<Rightarrow> event list" where
  "failedRetry c = [EmbedTextCall (js c), EmbeddingsFetch (Single (js c)) (ENotOk 429 [])]"

definition refusedInsert :: "nat \<times> string \<Rightarrow> event" where
  "refusedInsert ic =
     InsertChunk (vectorRow (fst ic) (snd ic) zeroVector) (Some (msgCast 3 1024))"

definition loopRun :: "event list" where
  "loopRun =
     [ReadPdf (js ''a.pdf'') (Inr (js ''text'', 1)),
      SplitText (js ''text'') (Inr sevenTexts),
      EmbeddingsFetch (Batch sevenTexts) (ENotOk 429 []),
      EmbedTextCall (js ''c0''),
      EmbeddingsFetch (Single (js ''c0'')) (EData (Some [Item (Some [1 / 2, 1 / 2, 1 / 2])]) [])]
     @ concat (map failedRetry [''c1'', ''c2'', ''c3'', ''c4'', ''c5'', ''c6''])
     @ [InsertChunk (vectorRow 0 ''c0'' [1 / 2, 1 / 2, 1 / 2]) None]
     @ map refusedInsert [(1, ''c1''), (2, ''c2''), (3, ''c3''), (4, ''c4''), (5, ''c5''),
                          (6, ''c6'')]"

definition rejectedRun :: "event list" where
  "rejectedRun = loopRun @ [UpdatePdf (js ''p1'') (js ''failed'') None]"


section \<open>Properties of the query rewriter\<close>

lemma trim_trim: "trim (trim s) = trim s"
proof -
  define t where "t = dropWhile isWhiteSpace s"
  define u where "u = dropWhile isWhiteSpace (rev t)"
  have ts: "trim s = rev u" by (simp add: trim_def t_def u_def)
  have "trim (rev u) = rev u"
  proof (cases "u = []")
    case True
    then show ?thesis by (simp add: trim_def)
  next
    case False
    then have hu: "\<not> isWhiteSpace (hd u)" unfolding u_def by (rule hd_dropWhile)
    have tne: "t \<noteq> []" using False unfolding u_def by auto
    then have ht: "\<not> isWhiteSpace (hd t)" unfolding t_def by (rule hd_dropWhile)
    obtain ys where ys: "rev t = ys @ u" 
      unfolding u_def by (metis takeWhile_dropWhile_id)
    have "last u = last (rev t)" using ys False by simp
    also have "\<dots> = hd t" using tne by (simp add: last_rev)
    finally have lu: "\<not> isWhiteSpace (last u)" using ht by simp
    have "hd (rev u) = last u" using False by (simp add: hd_rev)
    then have d1: "dropWhile isWhiteSpace (rev u) = rev u"
      using lu by (simp add: dropWhile_eq_self_iff)
    have d2: "dropWhile isWhiteSpace u = u" using hu by (simp add: dropWhile_eq_self_iff)
    show ?thesis by (simp add: trim_def d1 d2)
  qed
  then show ?thesis by (simp add: ts)
qed

lemma trim_Cons_not_blank: "trim s = x # xs \<Longrightarrow> \<not> blank (x # xs)"
  using trim_trim [of s] by (simp add: blank_def)

lemma normalization_fields:
  assumes "normalization e h r = ((out, r1), e1)"
  defines "res \<equiv> chat e h (NormalizationPrompt (originalQuery r))"
  shows "e1 = [ChatCompletion (NormalizationPrompt (originalQuery r)) res] \<and> out = thrown res
    \<and> queryType r1 = queryType r \<and> error r1 = error r \<and> subQueries r1 = subQueries r
    \<and> originalQuery r1 = originalQuery r
    \<and> normalizedQuery r1 = (case reply res of Some s \<Rightarrow> Some s | None \<Rightarrow> normalizedQuery r)
    \<and> finalQuery r1 = (case reply res of Some s \<Rightarrow> s | None \<Rightarrow> finalQuery r)
    \<and> steps r1 = steps r @
          (case res of Rejected m \<Rightarrow> [] | NotOk st b \<Rightarrow> [NormalizationFailed]
           | Content c \<Rightarrow> if reply res = None then [NormalizationEmpty] else [NormalizationDone])"
proof (cases res)
  case (Rejected m)
  then show ?thesis using assms(1)
    by (auto simp add: normalization_def Let_def res_def [symmetric])
next
  case (NotOk st b)
  then show ?thesis using assms(1)
    by (auto simp add: normalization_def Let_def res_def [symmetric])
next
  case (Content c)
  show ?thesis
  proof (cases c)
    case None
    then show ?thesis using assms(1) Content
      by (auto simp add: normalization_def Let_def res_def [symmetric])
  next
    case (Some s)
    then show ?thesis using assms(1) Content
      by (cases "trim s") (auto simp add: normalization_def Let_def res_def [symmetric])
  qed
qed

lemma decompose_fields:
  assumes "decompose e h r qa = ((out, r1), e1)"
  defines "res \<equiv> chat e h (DecompositionPrompt qa)"
  shows "e1 = [ChatCompletion (DecompositionPrompt qa) res] \<and> out = thrown res \<and> queryType r1 = decomposition
    \<and> error r1 = error r \<and> normalizedQuery r1 = normalizedQuery r
    \<and> originalQuery r1 = originalQuery r \<and> subQueries r1 = (case reply res of Some s \<Rightarrow> Some s | None \<Rightarrow> subQueries r)
    \<and> finalQuery r1 = (case reply res of Some s \<Rightarrow> collapseNewlines (stripNumbering s) | None \<Rightarrow> finalQuery r)
    \<and> steps r1 = steps r @ [UseDecomposition] @
          (case res of Rejected m \<Rightarrow> [] | NotOk st b \<Rightarrow> [DecompositionApiFailed]
           | Content c \<Rightarrow> if reply res = None then [DecompositionFailed] else [])"
proof (cases res)
  case (Rejected m)
  then show ?thesis using assms(1) by (auto simp add: decompose_def Let_def res_def [symmetric])
next
  case (NotOk st b)
  then show ?thesis using assms(1) by (auto simp add: decompose_def Let_def res_def [symmetric])
next
  case (Content c)
  show ?thesis
  proof (cases c)
    case None
    then show ?thesis using assms(1) Content
      by (auto simp add: decompose_def Let_def res_def [symmetric])
  next
    case (Some s)
    then show ?thesis using assms(1) Content
      by (cases "trim s") (auto simp add: decompose_def Let_def res_def [symmetric])
  qed
qed

lemma expand_fields:
  assumes "expand e h r qa = ((out, r1), e1)"
  defines "res \<equiv> chat e h (ExpansionPrompt qa)"
  shows "e1 = [ChatCompletion (ExpansionPrompt qa) res] \<and> out = thrown res \<and> queryType r1 = expansion
    \<and> error r1 = error r \<and> normalizedQuery r1 = normalizedQuery r
    \<and> originalQuery r1 = originalQuery r \<and> subQueries r1 = subQueries r
    \<and> finalQuery r1 = (case reply res of Some s \<Rightarrow> s | None \<Rightarrow> finalQuery r)
    \<and> steps r1 = steps r @ [UseExpansion] @
          (case res of Rejected m \<Rightarrow> [] | NotOk st b \<Rightarrow> [ExpansionApiFailed]
           | Content c \<Rightarrow> if reply res = None then [ExpansionFailed] else [])"
proof (cases res)
  case (Rejected m)
  then show ?thesis using assms(1) by (auto simp add: expand_def Let_def res_def [symmetric])
next
  case (NotOk st b)
  then show ?thesis using assms(1) by (auto simp add: expand_def Let_def res_def [symmetric])
next
  case (Content c)
  show ?thesis
  proof (cases c)
    case None
    then show ?thesis using assms(1) Content
      by (auto simp add: expand_def Let_def res_def [symmetric])
  next
    case (Some s)
    then show ?thesis using assms(1) Content
      by (cases "trim s") (auto simp add: expand_def Let_def res_def [symmetric])
  qed
qed


lemma thrown_reply: "thrown res \<noteq> None \<Longrightarrow> reply res = None"
  by (cases res) auto

lemma rewriteQuery_run:
  assumes run: "rewriteQuery e h q = (r, evs)"
  defines "res1 \<equiv> chat e h (NormalizationPrompt q)"
  defines "ev1 \<equiv> ChatCompletion (NormalizationPrompt q) res1"
  defines "qa \<equiv> (case reply res1 of Some s \<Rightarrow> s | None \<Rightarrow> q)"
  defines "req2 \<equiv> (if isCompoundQuery qa then DecompositionPrompt qa else ExpansionPrompt qa)"
  defines "res2 \<equiv> chat e (h @ [ev1]) req2"
  shows "originalQuery r = q \<and> normalizedQuery r = reply res1"
    and "thrown res1 \<noteq> None \<Longrightarrow>
           evs = [ev1] \<and> error r = thrown res1 \<and> queryType r = fallback \<and>
           finalQuery r = q \<and> subQueries r = None \<and> steps r = [RewriteFailed]"
    and "thrown res1 = None \<Longrightarrow>
           evs = [ev1, ChatCompletion req2 res2] \<and> error r = thrown res2 \<and>
           queryType r = (if thrown res2 \<noteq> None then fallback
                          else if isCompoundQuery qa then decomposition else expansion) \<and>
           finalQuery r = (case reply res2 of None \<Rightarrow> qa
                           | Some s \<Rightarrow> if isCompoundQuery qa
                                       then collapseNewlines (stripNumbering s) else s) \<and>
           subQueries r = (if isCompoundQuery qa then reply res2 else None)"
    and "thrown res1 = None \<Longrightarrow>
           steps r =
             (case res1 of Rejected m \<Rightarrow> [] | NotOk st b \<Rightarrow> [NormalizationFailed]
              | Content c \<Rightarrow> if reply res1 = None then [NormalizationEmpty]
                             else [NormalizationDone]) @
             (if isCompoundQuery qa
              then [UseDecomposition] @
                   (case res2 of Rejected m \<Rightarrow> [] | NotOk st b \<Rightarrow> [DecompositionApiFailed]
                    | Content c \<Rightarrow> if reply res2 = None then [DecompositionFailed] else [])
              else [UseExpansion] @
                   (case res2 of Rejected m \<Rightarrow> [] | NotOk st b \<Rightarrow> [ExpansionApiFailed]
                    | Content c \<Rightarrow> if reply res2 = None then [ExpansionFailed] else [])) @
             (if thrown res2 \<noteq> None then [RewriteFailed] else [])"
proof -
  define r0 where "r0 = \<lparr>originalQuery = q, finalQuery = q, queryType = original, steps = [],
                normalizedQuery = None, subQueries = None, error = None\<rparr>"
  obtain out1 r1 e1 where n: "normalization e h r0 = ((out1, r1), e1)"
    by (metis surj_pair)
  have r0q: "originalQuery r0 = q" by (simp add: r0_def)
  note nf = normalization_fields [OF n, unfolded r0q, folded res1_def]
  have e1: "e1 = [ev1]" using nf by (simp add: ev1_def)
  have out1: "out1 = thrown res1" using nf by simp
  have fq1: "finalQuery r1 = qa" using nf by (simp add: qa_def r0_def split: option.splits)
  have nq1: "normalizedQuery r1 = reply res1" using nf by (simp add: r0_def split: option.splits)
  have sq1: "subQueries r1 = None" and er1: "error r1 = None" and oq1: "originalQuery r1 = q"
    using nf by (simp_all add: r0_def)
  have st1: "thrown res1 \<noteq> None \<Longrightarrow> steps r1 = []"
    using nf by (cases res1) (simp_all add: r0_def)
  show A: "thrown res1 \<noteq> None \<Longrightarrow>
           evs = [ev1] \<and> error r = thrown res1 \<and> queryType r = fallback \<and>
           finalQuery r = q \<and> subQueries r = None \<and> steps r = [RewriteFailed]"
  proof -
    assume t: "thrown res1 \<noteq> None"
    then obtain m where m: "out1 = Some m" using out1 by auto
    have "qa = q" using thrown_reply [OF t] by (simp add: qa_def)
    then show ?thesis
      using run n m e1 out1 fq1 sq1 st1 [OF t]
      by (auto simp add: rewriteQuery_def rewriteTry_def r0_def [symmetric])
  qed
  obtain out2 r2 e2 where s2: "(if isCompoundQuery qa then decompose e (h @ [ev1]) r1 qa
                            else expand e (h @ [ev1]) r1 qa) = ((out2, r2), e2)"
    by (metis surj_pair)
  have f2: "e2 = [ChatCompletion req2 res2] \<and> out2 = thrown res2 \<and>
        queryType r2 = (if isCompoundQuery qa then decomposition else expansion) \<and>
        normalizedQuery r2 = reply res1 \<and> originalQuery r2 = q \<and>
        finalQuery r2 = (case reply res2 of None \<Rightarrow> qa
                           | Some s \<Rightarrow> if isCompoundQuery qa
                                       then collapseNewlines (stripNumbering s) else s) \<and>
        subQueries r2 = (if isCompoundQuery qa then reply res2 else None)"
  proof (cases "isCompoundQuery qa")
    case True
    then have d: "decompose e (h @ [ev1]) r1 qa = ((out2, r2), e2)" using s2 by simp
    show ?thesis
      using decompose_fields [OF d] True fq1 nq1 sq1 oq1
      by (simp add: req2_def res2_def split: option.splits)
  next
    case False
    then have d: "expand e (h @ [ev1]) r1 qa = ((out2, r2), e2)" using s2 by simp
    show ?thesis
      using expand_fields [OF d] False fq1 nq1 sq1 oq1
      by (simp add: req2_def res2_def split: option.splits)
  qed
  have st1full: "steps r1 =
             (case res1 of Rejected m \<Rightarrow> [] | NotOk st b \<Rightarrow> [NormalizationFailed]
              | Content c \<Rightarrow> if reply res1 = None then [NormalizationEmpty]
                             else [NormalizationDone])"
    using nf by (simp add: r0_def)
  have f2s: "steps r2 = steps r1 @
             (if isCompoundQuery qa
              then [UseDecomposition] @
                   (case res2 of Rejected m \<Rightarrow> [] | NotOk st b \<Rightarrow> [DecompositionApiFailed]
                    | Content c \<Rightarrow> if reply res2 = None then [DecompositionFailed] else [])
              else [UseExpansion] @
                   (case res2 of Rejected m \<Rightarrow> [] | NotOk st b \<Rightarrow> [ExpansionApiFailed]
                    | Content c \<Rightarrow> if reply res2 = None then [ExpansionFailed] else []))"
  proof (cases "isCompoundQuery qa")
    case True
    then have d: "decompose e (h @ [ev1]) r1 qa = ((out2, r2), e2)" using s2 by simp
    show ?thesis
      using decompose_fields [OF d] True by (auto simp add: req2_def res2_def)
  next
    case False
    then have d: "expand e (h @ [ev1]) r1 qa = ((out2, r2), e2)" using s2 by simp
    show ?thesis
      using expand_fields [OF d] False by (auto simp add: req2_def res2_def)
  qed
  have B: "thrown res1 = None \<Longrightarrow> rewriteTry e h r0 = ((out2, r2), [ev1] @ e2)"
    using n s2 out1 e1 fq1 by (cases "isCompoundQuery qa") (simp_all add: rewriteTry_def Let_def)
  show "thrown res1 = None \<Longrightarrow>
           evs = [ev1, ChatCompletion req2 res2] \<and> error r = thrown res2 \<and>
           queryType r = (if thrown res2 \<noteq> None then fallback
                          else if isCompoundQuery qa then decomposition else expansion) \<and>
           finalQuery r = (case reply res2 of None \<Rightarrow> qa
                           | Some s \<Rightarrow> if isCompoundQuery qa
                                       then collapseNewlines (stripNumbering s) else s) \<and>
           subQueries r = (if isCompoundQuery qa then reply res2 else None)"
  proof -
    assume t: "thrown res1 = None"
    have er2: "error r2 = None"
    proof (cases "isCompoundQuery qa")
      case True
      then have d: "decompose e (h @ [ev1]) r1 qa = ((out2, r2), e2)" using s2 by simp
      show ?thesis using decompose_fields [OF d] er1 by simp
    next
      case False
      then have d: "expand e (h @ [ev1]) r1 qa = ((out2, r2), e2)" using s2 by simp
      show ?thesis using expand_fields [OF d] er1 by simp
    qed
    show ?thesis
    proof (cases out2)
      case None
      then have "r = r2 \<and> evs = [ev1] @ e2"
        using run B [OF t] by (simp add: rewriteQuery_def r0_def [symmetric])
      then show ?thesis using f2 None er2 by simp
    next
      case (Some m)
      then have "r = r2\<lparr>queryType := fallback, error := Some m,
                 steps := steps r2 @ [RewriteFailed]\<rparr> \<and> evs = [ev1] @ e2"
        using run B [OF t] by (auto simp add: rewriteQuery_def r0_def [symmetric])
      moreover have "thrown res2 = Some m" using f2 Some by simp
      ultimately show ?thesis using f2 by simp
    qed
  qed
  show "thrown res1 = None \<Longrightarrow>
           steps r =
             (case res1 of Rejected m \<Rightarrow> [] | NotOk st b \<Rightarrow> [NormalizationFailed]
              | Content c \<Rightarrow> if reply res1 = None then [NormalizationEmpty]
                             else [NormalizationDone]) @
             (if isCompoundQuery qa
              then [UseDecomposition] @
                   (case res2 of Rejected m \<Rightarrow> [] | NotOk st b \<Rightarrow> [DecompositionApiFailed]
                    | Content c \<Rightarrow> if reply res2 = None then [DecompositionFailed] else [])
              else [UseExpansion] @
                   (case res2 of Rejected m \<Rightarrow> [] | NotOk st b \<Rightarrow> [ExpansionApiFailed]
                    | Content c \<Rightarrow> if reply res2 = None then [ExpansionFailed] else [])) @
             (if thrown res2 \<noteq> None then [RewriteFailed] else [])"
  proof -
    assume t: "thrown res1 = None"
    show ?thesis
    proof (cases out2)
      case None
      then have "r = r2"
        using run B [OF t] by (simp add: rewriteQuery_def r0_def [symmetric])
      moreover have "thrown res2 = None" using f2 None by simp
      ultimately show ?thesis using f2s st1full by simp
    next
      case (Some m)
      then have "r = r2\<lparr>queryType := fallback, error := Some m,
                 steps := steps r2 @ [RewriteFailed]\<rparr>"
        using run B [OF t] by (auto simp add: rewriteQuery_def r0_def [symmetric])
      moreover have "thrown res2 = Some m" using f2 Some by simp
      ultimately show ?thesis using f2s st1full by simp
    qed
  qed
  show "originalQuery r = q \<and> normalizedQuery r = reply res1"
  proof (cases "thrown res1")
    case None
    show ?thesis
    proof (cases out2)
      case None
      then have "r = r2"
        using run B [OF \<open>thrown res1 = None\<close>] by (simp add: rewriteQuery_def r0_def [symmetric])
      then show ?thesis using f2 by simp
    next
      case (Some m)
      then have "r = r2\<lparr>queryType := fallback, error := Some m,
                 steps := steps r2 @ [RewriteFailed]\<rparr>"
        using run B [OF \<open>thrown res1 = None\<close>] by (auto simp add: rewriteQuery_def r0_def [symmetric])
      then show ?thesis using f2 by simp
    qed
  next
    case (Some m)
    then have "out1 = Some m" using out1 by simp
    then have "r = r1\<lparr>queryType := fallback, error := Some m,
                 steps := steps r1 @ [RewriteFailed]\<rparr>"
      using run n by (auto simp add: rewriteQuery_def rewriteTry_def r0_def [symmetric])
    then show ?thesis using oq1 nq1 by simp
  qed
qed


lemma reply_not_blank: "reply res = Some s \<Longrightarrow> \<not> blank s"
proof (cases res)
  case (Content c)
  assume r: "reply res = Some s"
  then obtain t where "c = Some t" using Content by (cases c) auto
  then have "trim t = s" "s \<noteq> []" using r Content by (auto split: if_splits)
  then show ?thesis using trim_trim [of t] by (auto simp add: blank_def)
qed auto

lemma startsWith_append: "startsWith p (p @ b)"
  by (induction p) auto

lemma occursIn_append: "occursIn p (a @ p @ b)"
proof (induction a)
  case Nil
  show ?case using startsWith_append [of p b] by (cases "p @ b") auto
next
  case (Cons x a)
  then show ?case by simp
qed


lemmas rewrite_eval = chatReject_def
  rewriteQuery_def rewriteTry_def normalization_def decompose_def expand_def Let_def
  sampleEnv_def js_def isCompoundQuery_def compoundMarkers_def trim_def isWhiteSpace_def
  isDigit_def chatDown_def

lemma run_down_english:
  "rewriteQuery (sampleEnv chatDown embedDown) [] englishQuery =
     (\<lparr>originalQuery = englishQuery, finalQuery = englishQuery, queryType = expansion,
       steps = [NormalizationFailed, UseExpansion, ExpansionApiFailed],
       normalizedQuery = None, subQueries = None, error = None\<rparr>,
      [ChatCompletion (NormalizationPrompt englishQuery) (NotOk 503 []),
       ChatCompletion (ExpansionPrompt englishQuery) (NotOk 503 [])])"
  by (simp add: rewrite_eval englishQuery_def)

lemma run_echo_english:
  "rewriteQuery (sampleEnv chatEcho embedDown) [] englishQuery =
     (\<lparr>originalQuery = englishQuery, finalQuery = englishQuery, queryType = expansion,
       steps = [NormalizationDone, UseExpansion],
       normalizedQuery = Some englishQuery, subQueries = None, error = None\<rparr>,
      [ChatCompletion (NormalizationPrompt englishQuery) (Content (Some englishQuery)),
       ChatCompletion (ExpansionPrompt englishQuery) (Content (Some englishQuery))])"
  by (simp add: rewrite_eval englishQuery_def)

lemma run_split_AandB:
  "rewriteQuery (sampleEnv chatSplit embedDown) [] queryAandB =
     (\<lparr>originalQuery = queryAandB, finalQuery = js ''A? B?'', queryType = decomposition,
       steps = [NormalizationFailed, UseDecomposition],
       normalizedQuery = None, 
       subQueries = Some (js ''1. A?'' @ [0xA] @ js ''2. B?''), error = None\<rparr>,
      [ChatCompletion (NormalizationPrompt queryAandB) (NotOk 503 []),
       ChatCompletion (DecompositionPrompt queryAandB)
         (Content (Some (js ''1. A?'' @ [0xA] @ js ''2. B? '')))])"
  by (simp add: rewrite_eval queryAandB_def)


lemma thrown_None_cases:
  "thrown res = None \<Longrightarrow> (\<exists>st b. res = NotOk st b) \<or> (\<exists>c. res = Content c)"
  by (cases res) auto

lemma qa_not_blank:
  "\<not> blank q \<Longrightarrow> \<not> blank (case reply res of Some s \<Rightarrow> s | None \<Rightarrow> q)"
  by (cases "reply res") (auto dest: reply_not_blank)

text \<open>
  rewriteQuery is a total function to a result object, every exception of its
  fetches being caught. For every query and every behaviour of the calls, the
  final query is the original query, the normalized query, the merged
  sub-questions or the expansion; it is the original query when every call of
  the run failed, replied nothing or threw; it is not blank when the original
  is not and no sub-questions were merged; and the query type is \<open>fallback\<close>
  exactly when a call threw, and otherwise the branch taken.
\<close>

lemma rewriteQuery_outcome:
  assumes run: "rewriteQuery e h q = (r, evs)"
  shows "originalQuery r = q
    \<and> (finalQuery r = q \<or> normalizedQuery r = Some (finalQuery r)
        \<or> map_option (\<lambda>s. collapseNewlines (stripNumbering s)) (subQueries r)
            = Some (finalQuery r)
        \<or> (\<exists>qa res. ChatCompletion (ExpansionPrompt qa) res \<in> set evs
              \<and> reply res = Some (finalQuery r)))
    \<and> (list_all noReply evs \<longrightarrow> finalQuery r = q)
    \<and> (\<not> blank q \<and> subQueries r = None \<longrightarrow> \<not> blank (finalQuery r))
    \<and> ((queryType r = fallback) \<longleftrightarrow> list_ex threw evs)
    \<and> ((error r \<noteq> None) \<longleftrightarrow> list_ex threw evs)
    \<and> (list_all noReply evs \<and> \<not> list_ex threw evs \<longrightarrow>
          queryType r = (if isCompoundQuery q then decomposition else expansion))
    \<and> evs \<noteq> [] \<and> length evs \<le> 2"
proof -
  define res1 where "res1 = chat e h (NormalizationPrompt q)"
  define ev1 where "ev1 = ChatCompletion (NormalizationPrompt q) res1"
  define qa where "qa = (case reply res1 of Some s \<Rightarrow> s | None \<Rightarrow> q)"
  define req2 where
    "req2 = (if isCompoundQuery qa then DecompositionPrompt qa else ExpansionPrompt qa)"
  define res2 where "res2 = chat e (h @ [ev1]) req2"
  note R = rewriteQuery_run [OF run, folded res1_def, folded ev1_def, folded qa_def,
      folded req2_def, folded res2_def]
  show ?thesis
  proof (cases "thrown res1")
    case (Some m)
    then have t: "thrown res1 \<noteq> None" by simp
    show ?thesis using R(1) R(2) [OF t] Some thrown_reply [OF t]
      by (simp add: ev1_def)
  next
    case None
    note F = R(3) [OF None]
    have evs: "evs = [ev1, ChatCompletion req2 res2]" using F by simp
    have nq: "normalizedQuery r = reply res1" and oq: "originalQuery r = q" using R(1) by simp_all
    have c1: "originalQuery r = q" by (rule oq)
    have c2: "finalQuery r = q \<or> normalizedQuery r = Some (finalQuery r)
        \<or> map_option (\<lambda>s. collapseNewlines (stripNumbering s)) (subQueries r)
            = Some (finalQuery r)
        \<or> (\<exists>qa res. ChatCompletion (ExpansionPrompt qa) res \<in> set evs
              \<and> reply res = Some (finalQuery r))"
    proof (cases "reply res2")
      case None
      then have "finalQuery r = qa" using F by simp
      then show ?thesis using nq by (cases "reply res1") (simp_all add: qa_def)
    next
      case (Some s)
      show ?thesis
      proof (cases "isCompoundQuery qa")
        case True
        then show ?thesis using F Some by simp
      next
        case False
        then have "ChatCompletion (ExpansionPrompt qa) res2 \<in> set evs"
          and "reply res2 = Some (finalQuery r)"
          using F Some evs by (simp_all add: req2_def)
        then show ?thesis by blast
      qed
    qed
    have c3: "list_all noReply evs \<longrightarrow> finalQuery r = q"
      using F evs by (auto simp add: ev1_def qa_def)
    have c4: "\<not> blank q \<and> subQueries r = None \<longrightarrow> \<not> blank (finalQuery r)"
    proof (intro impI, elim conjE)
      assume nb: "\<not> blank q" and sq: "subQueries r = None"
      have qb: "\<not> blank qa" unfolding qa_def using nb by (rule qa_not_blank)
      show "\<not> blank (finalQuery r)"
      proof (cases "reply res2")
        case None
        then show ?thesis using F qb by simp
      next
        case (Some s)
        then have "\<not> isCompoundQuery qa" using F sq by auto
        then have "finalQuery r = s" using F Some by simp
        then show ?thesis using reply_not_blank [OF Some] by simp
      qed
    qed
    have c5: "(queryType r = fallback) \<longleftrightarrow> list_ex threw evs"
      using F evs None by (auto simp add: ev1_def)
    have c6: "(error r \<noteq> None) \<longleftrightarrow> list_ex threw evs"
      using F evs None by (auto simp add: ev1_def)
    have c7: "list_all noReply evs \<and> \<not> list_ex threw evs \<longrightarrow>
          queryType r = (if isCompoundQuery q then decomposition else expansion)"
      using F evs None by (auto simp add: ev1_def qa_def)
    have c8: "evs \<noteq> [] \<and> length evs \<le> 2" using evs by simp
    from c1 c2 c3 c4 c5 c6 c7 c8 show ?thesis by blast
  qed
qed

text \<open>
  Claim C3 does not hold of the code where sub-questions are merged. The
  decomposition stage tests the reply before it strips the numbering (line
  165) and assigns what is left after (line 168): for the query "A he B" and
  the reply "1. ", line feed, "2. ", the reply is not empty, nothing is left of
  it, and the final query is the empty string, with no step and no error that
  says so. The query was not blank.
\<close>

theorem numbering_only_reply:
  "rewriteQuery (sampleEnv chatNumbering embedDown) [] queryAandB =
     (\<lparr>originalQuery = queryAandB, finalQuery = [], queryType = decomposition,
       steps = [NormalizationFailed, UseDecomposition],
       normalizedQuery = None,
       subQueries = Some (js ''1. '' @ [0xA] @ js ''2.''), error = None\<rparr>,
      [ChatCompletion (NormalizationPrompt queryAandB) (NotOk 503 []),
       ChatCompletion (DecompositionPrompt queryAandB)
         (Content (Some (js ''1. '' @ [0xA] @ js ''2. '')))])
   \<and> \<not> blank queryAandB"
  by (simp add: rewrite_eval queryAandB_def blank_def)


lemma run_reject_english:
  "rewriteQuery (sampleEnv chatReject embedDown) [] englishQuery =
     (\<lparr>originalQuery = englishQuery, finalQuery = englishQuery, queryType = fallback,
       steps = [RewriteFailed],
       normalizedQuery = None, subQueries = None, error = Some (js ''fetch failed'')\<rparr>,
      [ChatCompletion (NormalizationPrompt englishQuery) (Rejected (js ''fetch failed''))])"
  by (simp add: rewrite_eval englishQuery_def)

text \<open>
  Claim C10. The query type of a result is never \<open>original\<close>: it is \<open>fallback\<close>
  when a call threw, and otherwise \<open>decomposition\<close> or \<open>expansion\<close> by the marker
  test on the query the branch step inspects, also when the call of that branch
  failed, which only the last step label records.
\<close>

theorem rewriteQuery_queryType_never_original:
  assumes run: "rewriteQuery e h q = (r, evs)"
  shows "queryType r \<noteq> original
    \<and> queryType r =
        (if list_ex threw evs then fallback
         else if isCompoundQuery (case normalizedQuery r of Some n \<Rightarrow> n | None \<Rightarrow> q)
              then decomposition else expansion)
    \<and> (\<forall>qa st b. ChatCompletion (DecompositionPrompt qa) (NotOk st b) \<in> set evs \<longrightarrow>
          queryType r = decomposition \<and> error r = None \<and> finalQuery r = qa \<and>
          last (steps r) = DecompositionApiFailed)
    \<and> (\<forall>qa st b. ChatCompletion (ExpansionPrompt qa) (NotOk st b) \<in> set evs \<longrightarrow>
          queryType r = expansion \<and> error r = None \<and> finalQuery r = qa \<and>
          last (steps r) = ExpansionApiFailed)
    \<and> (list_ex threw evs \<longrightarrow> error r \<noteq> None \<and> last (steps r) = RewriteFailed)"
proof -
  define res1 where "res1 = chat e h (NormalizationPrompt q)"
  define ev1 where "ev1 = ChatCompletion (NormalizationPrompt q) res1"
  define qa where "qa = (case reply res1 of Some s \<Rightarrow> s | None \<Rightarrow> q)"
  define req2 where
    "req2 = (if isCompoundQuery qa then DecompositionPrompt qa else ExpansionPrompt qa)"
  define res2 where "res2 = chat e (h @ [ev1]) req2"
  note R = rewriteQuery_run [OF run, folded res1_def, folded ev1_def, folded qa_def,
      folded req2_def, folded res2_def]
  show ?thesis
  proof (cases "thrown res1")
    case (Some m)
    then have t: "thrown res1 \<noteq> None" by simp
    show ?thesis using R(1) R(2) [OF t] Some thrown_reply [OF t]
      by (auto simp add: ev1_def)
  next
    case None
    note F = R(3) [OF None]
    note S = R(4) [OF None]
    have evs: "evs = [ev1, ChatCompletion req2 res2]" using F by simp
    have nq: "(case normalizedQuery r of Some n \<Rightarrow> n | None \<Rightarrow> q) = qa"
      using R(1) by (simp add: qa_def)
    have t: "list_ex threw evs \<longleftrightarrow> thrown res2 \<noteq> None"
      using evs None by (simp add: ev1_def)
    have c1: "queryType r \<noteq> original" using F by simp
    have c2: "queryType r =
        (if list_ex threw evs then fallback
         else if isCompoundQuery (case normalizedQuery r of Some n \<Rightarrow> n | None \<Rightarrow> q)
              then decomposition else expansion)"
      unfolding nq t using F by simp
    have c3: "\<forall>qa' st b. ChatCompletion (DecompositionPrompt qa') (NotOk st b) \<in> set evs \<longrightarrow>
          queryType r = decomposition \<and> error r = None \<and> finalQuery r = qa' \<and>
          last (steps r) = DecompositionApiFailed"
    proof (intro allI impI)
      fix qa' st b
      assume "ChatCompletion (DecompositionPrompt qa') (NotOk st b) \<in> set evs"
      then have "req2 = DecompositionPrompt qa'" and r2: "res2 = NotOk st b"
        using evs by (auto simp add: ev1_def)
      then have "isCompoundQuery qa" and "qa' = qa"
        by (auto simp add: req2_def split: if_splits)
      then show "queryType r = decomposition \<and> error r = None \<and> finalQuery r = qa' \<and>
          last (steps r) = DecompositionApiFailed"
        using F S r2 by simp
    qed
    have c4: "\<forall>qa' st b. ChatCompletion (ExpansionPrompt qa') (NotOk st b) \<in> set evs \<longrightarrow>
          queryType r = expansion \<and> error r = None \<and> finalQuery r = qa' \<and>
          last (steps r) = ExpansionApiFailed"
    proof (intro allI impI)
      fix qa' st b
      assume "ChatCompletion (ExpansionPrompt qa') (NotOk st b) \<in> set evs"
      then have "req2 = ExpansionPrompt qa'" and r2: "res2 = NotOk st b"
        using evs by (auto simp add: ev1_def)
      then have "\<not> isCompoundQuery qa" and "qa' = qa"
        by (auto simp add: req2_def split: if_splits)
      then show "queryType r = expansion \<and> error r = None \<and> finalQuery r = qa' \<and>
          last (steps r) = ExpansionApiFailed"
        using F S r2 by simp
    qed
    have c5: "list_ex threw evs \<longrightarrow> error r \<noteq> None \<and> last (steps r) = RewriteFailed"
      unfolding t using F S by simp
    from c1 c2 c3 c4 c5 show ?thesis by blast
  qed
qed

theorem rewriteQuery_queryType_never_original_witness:
  "ChatCompletion (ExpansionPrompt englishQuery) (NotOk 503 [])
      \<in> set (snd (rewriteQuery (sampleEnv chatDown embedDown) [] englishQuery))
   \<and> queryType (fst (rewriteQuery (sampleEnv chatDown embedDown) [] englishQuery)) = expansion
   \<and> last (steps (fst (rewriteQuery (sampleEnv chatDown embedDown) [] englishQuery)))
       = ExpansionApiFailed
   \<and> list_ex threw (snd (rewriteQuery (sampleEnv chatReject embedDown) [] englishQuery))
   \<and> queryType (fst (rewriteQuery (sampleEnv chatReject embedDown) [] englishQuery)) = fallback"
proof -
  have run1: "rewriteQuery (sampleEnv chatDown embedDown) [] englishQuery =
      (fst (rewriteQuery (sampleEnv chatDown embedDown) [] englishQuery),
       snd (rewriteQuery (sampleEnv chatDown embedDown) [] englishQuery))"
    by simp
  have run2: "rewriteQuery (sampleEnv chatReject embedDown) [] englishQuery =
      (fst (rewriteQuery (sampleEnv chatReject embedDown) [] englishQuery),
       snd (rewriteQuery (sampleEnv chatReject embedDown) [] englishQuery))"
    by simp
  have a: "ChatCompletion (ExpansionPrompt englishQuery) (NotOk 503 [])
      \<in> set (snd (rewriteQuery (sampleEnv chatDown embedDown) [] englishQuery))"
    by (simp add: run_down_english)
  have b: "list_ex threw (snd (rewriteQuery (sampleEnv chatReject embedDown) [] englishQuery))"
    by (simp add: run_reject_english)
  from rewriteQuery_queryType_never_original [OF run1] a
  have "queryType (fst (rewriteQuery (sampleEnv chatDown embedDown) [] englishQuery)) = expansion
    \<and> last (steps (fst (rewriteQuery (sampleEnv chatDown embedDown) [] englishQuery)))
       = ExpansionApiFailed"
    by blast
  moreover from rewriteQuery_queryType_never_original [OF run2] b
  have "queryType (fst (rewriteQuery (sampleEnv chatReject embedDown) [] englishQuery)) = fallback"
    by simp
  ultimately show ?thesis using a b by simp
qed

lemma isCompoundQuery_marker:
  "m \<in> set compoundMarkers \<Longrightarrow> isCompoundQuery (a @ m @ b)"
  unfolding isCompoundQuery_def list_ex_iff using occursIn_append by blast

text \<open>
  Claim C7, as amended. When no call throws, the query type is \<open>decomposition\<close>
  exactly when the query the branch step inspects (the normalized query, or the
  original one when normalization gave none) contains one of the seven Chinese
  markers; the decomposition prompt is then sent, and a reply that is not empty
  becomes the final query with every match of \<open>\d+\.\s*\<close> removed and every run
  of line feeds turned into one space. Any text around a marker triggers the
  test.
\<close>

theorem rewriteQuery_decomposition:
  assumes run: "rewriteQuery e h q = (r, evs)" and quiet: "\<not> list_ex threw evs"
  shows "((queryType r = decomposition) \<longleftrightarrow>
            isCompoundQuery (case normalizedQuery r of Some n \<Rightarrow> n | None \<Rightarrow> q))
    \<and> (isCompoundQuery (case normalizedQuery r of Some n \<Rightarrow> n | None \<Rightarrow> q) \<longrightarrow>
          (\<exists>res. ChatCompletion
             (DecompositionPrompt (case normalizedQuery r of Some n \<Rightarrow> n | None \<Rightarrow> q)) res
               \<in> set evs))
    \<and> (\<forall>qa s. ChatCompletion (DecompositionPrompt qa) (Content (Some s)) \<in> set evs
                \<and> trim s \<noteq> [] \<longrightarrow>
          queryType r = decomposition \<and> subQueries r = Some (trim s) \<and>
          finalQuery r = collapseNewlines (stripNumbering (trim s)))
    \<and> (\<forall>a b m. m \<in> set compoundMarkers \<longrightarrow> isCompoundQuery (a @ m @ b))"
proof -
  define res1 where "res1 = chat e h (NormalizationPrompt q)"
  define ev1 where "ev1 = ChatCompletion (NormalizationPrompt q) res1"
  define qa where "qa = (case reply res1 of Some s \<Rightarrow> s | None \<Rightarrow> q)"
  define req2 where
    "req2 = (if isCompoundQuery qa then DecompositionPrompt qa else ExpansionPrompt qa)"
  define res2 where "res2 = chat e (h @ [ev1]) req2"
  note R = rewriteQuery_run [OF run, folded res1_def, folded ev1_def, folded qa_def,
      folded req2_def, folded res2_def]
  have None: "thrown res1 = None"
  proof (rule ccontr)
    assume t: "thrown res1 \<noteq> None"
    then have "evs = [ev1]" using R(2) by simp
    then show False using quiet t by (simp add: ev1_def)
  qed
  note F = R(3) [OF None]
  have evs: "evs = [ev1, ChatCompletion req2 res2]" using F by simp
  have nq: "(case normalizedQuery r of Some n \<Rightarrow> n | None \<Rightarrow> q) = qa"
    using R(1) by (simp add: qa_def)
  have t2: "thrown res2 = None" using quiet evs by simp
  have c1: "(queryType r = decomposition) \<longleftrightarrow> isCompoundQuery qa"
    using F t2 by simp
  have c2: "isCompoundQuery qa \<longrightarrow>
          (\<exists>res. ChatCompletion (DecompositionPrompt qa) res \<in> set evs)"
    using evs by (auto simp add: req2_def)
  have c3: "\<forall>qa' s. ChatCompletion (DecompositionPrompt qa') (Content (Some s)) \<in> set evs
                \<and> trim s \<noteq> [] \<longrightarrow>
          queryType r = decomposition \<and> subQueries r = Some (trim s) \<and>
          finalQuery r = collapseNewlines (stripNumbering (trim s))"
  proof (intro allI impI, elim conjE)
    fix qa' s
    assume "ChatCompletion (DecompositionPrompt qa') (Content (Some s)) \<in> set evs"
      and ne: "trim s \<noteq> []"
    then have "req2 = DecompositionPrompt qa'" and r2: "res2 = Content (Some s)"
      using evs by (auto simp add: ev1_def)
    then have "isCompoundQuery qa"
      by (auto simp add: req2_def split: if_splits)
    then show "queryType r = decomposition \<and> subQueries r = Some (trim s) \<and>
          finalQuery r = collapseNewlines (stripNumbering (trim s))"
      using F r2 ne by simp
  qed
  have c4: "\<forall>a b m. m \<in> set compoundMarkers \<longrightarrow> isCompoundQuery (a @ m @ b)"
    using isCompoundQuery_marker by blast
  from c1 c2 c3 c4 show ?thesis unfolding nq by blast
qed

theorem rewriteQuery_decomposition_witness:
  "\<not> list_ex threw (snd (rewriteQuery (sampleEnv chatSplit embedDown) [] queryAandB))
   \<and> [0x548C] \<in> set compoundMarkers
   \<and> isCompoundQuery queryAandB
   \<and> queryType (fst (rewriteQuery (sampleEnv chatSplit embedDown) [] queryAandB)) = decomposition
   \<and> finalQuery (fst (rewriteQuery (sampleEnv chatSplit embedDown) [] queryAandB)) = js ''A? B?''"
proof -
  have run: "rewriteQuery (sampleEnv chatSplit embedDown) [] queryAandB =
      (fst (rewriteQuery (sampleEnv chatSplit embedDown) [] queryAandB),
       snd (rewriteQuery (sampleEnv chatSplit embedDown) [] queryAandB))"
    by simp
  have a: "\<not> list_ex threw (snd (rewriteQuery (sampleEnv chatSplit embedDown) [] queryAandB))"
    by (simp add: run_split_AandB)
  have b: "[0x548C] \<in> set compoundMarkers" by (simp add: compoundMarkers_def)
  have n: "normalizedQuery (fst (rewriteQuery (sampleEnv chatSplit embedDown) [] queryAandB)) = None"
    by (simp add: run_split_AandB)
  have c: "isCompoundQuery queryAandB"
    using rewriteQuery_decomposition [OF run a] b unfolding queryAandB_def by blast
  have "queryType (fst (rewriteQuery (sampleEnv chatSplit embedDown) [] queryAandB)) = decomposition"
    using rewriteQuery_decomposition [OF run a] c n by simp
  moreover have "finalQuery (fst (rewriteQuery (sampleEnv chatSplit embedDown) [] queryAandB)) = js ''A? B?''"
    by (simp add: run_split_AandB)
  ultimately show ?thesis using a b c by simp
qed

text \<open>
  Claim C7 as stated fails: the English query of the specification contains none
  of the markers, and is sent to expansion both when the language model is down
  and when it answers every prompt with the query it was given.
\<close>

theorem english_query_not_decomposed:
  "\<not> isCompoundQuery englishQuery
   \<and> queryType (fst (rewriteQuery (sampleEnv chatDown embedDown) [] englishQuery)) = expansion
   \<and> queryType (fst (rewriteQuery (sampleEnv chatEcho embedDown) [] englishQuery)) = expansion"
  by (simp add: run_down_english run_echo_english)
    (simp add: englishQuery_def js_def isCompoundQuery_def compoundMarkers_def)

section \<open>Properties of the vector search\<close>














lemma embedText_events:
  "embedText e h t = (r, evs) \<Longrightarrow>
     evs = [EmbedTextCall t] \<or>
     (\<exists>res. evs = [EmbedTextCall t, EmbeddingsFetch (Single t) res])"
  by (auto simp add: embedText_def Let_def split: if_splits)











section \<open>Properties of the retrieval with fallbacks\<close>







lemma strategyLog_append: "strategyLog (a @ b) = strategyLog a @ strategyLog b"
  by (induction a rule: strategyLog.induct) simp_all

lemma rewriteQuery_events:
  assumes "rewriteQuery e h q = (r, evs)"
  shows "strategyLog evs = [] \<and> filter isDbCall evs = []"
proof (cases "thrown (chat e h (NormalizationPrompt q))")
  case None
  from rewriteQuery_run(3) [OF assms None] show ?thesis by simp
next
  case (Some m)
  then have "thrown (chat e h (NormalizationPrompt q)) \<noteq> None" by simp
  from rewriteQuery_run(2) [OF assms this] show ?thesis by simp
qed

lemma searchSimilarChunks_events:
  assumes "searchSimilarChunks e db h q opts = (r, evs)"
  shows "strategyLog evs = [] \<and>
         (filter isDbCall evs = [QueryRaw (opt_pdfId opts) (topK opts) (threshold opts)]
          \<or> filter isDbCall evs = [] \<and> (\<exists>m. r = Inl m))"
proof -
  obtain r0 evs0 where et: "embedText e h q = (r0, evs0)" by force
  from embedText_events [OF et]
  have quiet: "strategyLog evs0 = [] \<and> filter isDbCall evs0 = []" by auto
  show ?thesis
  proof (cases r0)
    case (Inl m)
    then have "r = Inl (msgSearchFailed m)" "evs = evs0"
      using assms et by (simp_all add: searchSimilarChunks_def)
    then show ?thesis using quiet by simp
  next
    case (Inr qv)
    then have "evs = evs0 @ [QueryRaw (opt_pdfId opts) (topK opts) (threshold opts)]"
      using assms et by (simp add: searchSimilarChunks_def)
    then show ?thesis using quiet by (simp add: strategyLog_append)
  qed
qed


text \<open>The four ways a run ends: with strategy 1, 2, 3 or 4. A vector search
  ends the run when it throws or returns three chunks, the sampling when it
  throws or returns a chunk.\<close>

lemma smartRetrieval_shape:
  assumes run: "smartRetrieval e db h query pid pdfRecord = (res, evs)"
  defines "fq \<equiv> finalQuery (fst (rewriteQuery e h query))"
  defines "sampled \<equiv> take 10 (everyNth (samplingStep (totalChunks pdfRecord))
                                 (findManyChunks db pid 100))"
  defines "Q1 \<equiv> QueryRaw (Some pid) 5 (6 / 10)"
  defines "Q2 \<equiv> QueryRaw (Some pid) 8 (4 / 10)"
  shows "\<exists>r1 r2 r3 r4 h1 h2 h3 h4.
      r1 = fst (searchSimilarChunks e db h1 fq \<lparr>opt_pdfId = Some pid, topK = 5, threshold = 6 / 10\<rparr>) \<and>
      r2 = fst (searchSimilarChunks e db h2 fq \<lparr>opt_pdfId = Some pid, topK = 8, threshold = 4 / 10\<rparr>) \<and>
      r3 = (case findError e h3 of Some m \<Rightarrow> Inl m | None \<Rightarrow> Inr sampled) \<and>
      r4 = (case findError e h4 of Some m \<Rightarrow> Inl m | None \<Rightarrow> Inr (findManyChunks db pid 10)) \<and>
      ((strategyLog evs = [(1, r1)] \<and> res = r1 \<and> (\<forall>cs. r1 = Inr cs \<longrightarrow> 3 \<le> length cs) \<and>
          (filter isDbCall evs = [] \<or> filter isDbCall evs = [Q1]))
       \<or> (strategyLog evs = [(1, r1), (2, r2)] \<and> res = r2 \<and>
          (\<exists>cs. r1 = Inr cs \<and> length cs < 3) \<and> (\<forall>cs. r2 = Inr cs \<longrightarrow> 3 \<le> length cs) \<and>
          (filter isDbCall evs = [Q1] \<or> filter isDbCall evs = [Q1, Q2]))
       \<or> (strategyLog evs = [(1, r1), (2, r2), (3, r3)] \<and> res = r3 \<and>
          (\<exists>cs. r1 = Inr cs \<and> length cs < 3) \<and> (\<exists>cs. r2 = Inr cs \<and> length cs < 3) \<and>
          r3 \<noteq> Inr [] \<and>
          filter isDbCall evs = [Q1, Q2, FindManyChunks pid 100])
       \<or> (strategyLog evs = [(1, r1), (2, r2), (3, r3), (4, r4)] \<and> res = r4 \<and>
          (\<exists>cs. r1 = Inr cs \<and> length cs < 3) \<and> (\<exists>cs. r2 = Inr cs \<and> length cs < 3) \<and>
          r3 = Inr [] \<and>
          filter isDbCall evs = [Q1, Q2, FindManyChunks pid 100, FindManyChunks pid 10]))"
proof -
  obtain rw e0 where rq: "rewriteQuery e h query = (rw, e0)" by force
  have fq: "fq = finalQuery rw" using rq by (simp add: fq_def)
  obtain r1 e1 where s1: "searchSimilarChunks e db (h @ e0) fq
      \<lparr>opt_pdfId = Some pid, topK = 5, threshold = 6 / 10\<rparr> = (r1, e1)" by force
  define ev1 where "ev1 = e0 @ e1 @ [Strategy 1 r1]"
  obtain r2 e2 where s2: "searchSimilarChunks e db (h @ ev1) fq
      \<lparr>opt_pdfId = Some pid, topK = 8, threshold = 4 / 10\<rparr> = (r2, e2)" by force
  define ev2 where "ev2 = ev1 @ e2 @ [Strategy 2 r2]"
  define r3 where "r3 = (case findError e (h @ ev2) of Some m \<Rightarrow> Inl m | None \<Rightarrow> Inr sampled)"
  define ev3 where "ev3 = ev2 @ [FindManyChunks pid 100, Strategy 3 r3]"
  define r4 where "r4 = (case findError e (h @ ev3) of Some m \<Rightarrow> Inl m
                          | None \<Rightarrow> Inr (findManyChunks db pid 10))"
  define ev4 where "ev4 = ev3 @ [FindManyChunks pid 10, Strategy 4 r4]"
  note L0 = rewriteQuery_events [OF rq]
  note L1 = searchSimilarChunks_events [OF s1]
  note L2 = searchSimilarChunks_events [OF s2]
  have sl1: "strategyLog ev1 = [(1, r1)]"
    using L0 L1 by (simp add: ev1_def strategyLog_append)
  have sl2: "strategyLog ev2 = [(1, r1), (2, r2)]"
    using sl1 L2 by (simp add: ev2_def strategyLog_append)
  have sl3: "strategyLog ev3 = [(1, r1), (2, r2), (3, r3)]"
    using sl2 by (simp add: ev3_def strategyLog_append)
  have sl4: "strategyLog ev4 = [(1, r1), (2, r2), (3, r3), (4, r4)]"
    using sl3 by (simp add: ev4_def strategyLog_append)
  have db1: "filter isDbCall ev1 = [Q1] \<or> filter isDbCall ev1 = [] \<and> (\<exists>m. r1 = Inl m)"
    using L0 L1 by (auto simp add: ev1_def Q1_def)
  have db2: "filter isDbCall ev2 = filter isDbCall ev1 @ [Q2]
             \<or> filter isDbCall ev2 = filter isDbCall ev1 \<and> (\<exists>m. r2 = Inl m)"
    using L2 by (auto simp add: ev2_def Q2_def)
  have db3: "filter isDbCall ev3 = filter isDbCall ev2 @ [FindManyChunks pid 100]"
    by (simp add: ev3_def)
  have db4: "filter isDbCall ev4 = filter isDbCall ev3 @ [FindManyChunks pid 10]"
    by (simp add: ev4_def)
  note U = run rq s1 s2 [unfolded ev1_def]
  note D = smartRetrieval_def Let_def fq ev1_def ev2_def ev3_def ev4_def sampled_def r3_def r4_def
  have e1: "r1 = fst (searchSimilarChunks e db (h @ e0) fq
      \<lparr>opt_pdfId = Some pid, topK = 5, threshold = 6 / 10\<rparr>)" using s1 by simp
  have e2: "r2 = fst (searchSimilarChunks e db (h @ ev1) fq
      \<lparr>opt_pdfId = Some pid, topK = 8, threshold = 4 / 10\<rparr>)" using s2 by simp
  have big: "(strategyLog evs = [(1, r1)] \<and> res = r1 \<and> (\<forall>cs. r1 = Inr cs \<longrightarrow> 3 \<le> length cs) \<and>
          (filter isDbCall evs = [] \<or> filter isDbCall evs = [Q1]))
       \<or> (strategyLog evs = [(1, r1), (2, r2)] \<and> res = r2 \<and>
          (\<exists>cs. r1 = Inr cs \<and> length cs < 3) \<and> (\<forall>cs. r2 = Inr cs \<longrightarrow> 3 \<le> length cs) \<and>
          (filter isDbCall evs = [Q1] \<or> filter isDbCall evs = [Q1, Q2]))
       \<or> (strategyLog evs = [(1, r1), (2, r2), (3, r3)] \<and> res = r3 \<and>
          (\<exists>cs. r1 = Inr cs \<and> length cs < 3) \<and> (\<exists>cs. r2 = Inr cs \<and> length cs < 3) \<and>
          r3 \<noteq> Inr [] \<and>
          filter isDbCall evs = [Q1, Q2, FindManyChunks pid 100])
       \<or> (strategyLog evs = [(1, r1), (2, r2), (3, r3), (4, r4)] \<and> res = r4 \<and>
          (\<exists>cs. r1 = Inr cs \<and> length cs < 3) \<and> (\<exists>cs. r2 = Inr cs \<and> length cs < 3) \<and>
          r3 = Inr [] \<and>
          filter isDbCall evs = [Q1, Q2, FindManyChunks pid 100, FindManyChunks pid 10])"
  proof (cases r1)
    case (Inl m)
    then have "res = r1 \<and> evs = ev1" using U by (auto simp add: D)
    then show ?thesis using sl1 db1 Inl by auto
  next
    case (Inr cs)
    note R1 = Inr
    show ?thesis
    proof (cases "3 \<le> length cs")
      case True
      then have "res = r1 \<and> evs = ev1" using U R1 by (auto simp add: D)
      then show ?thesis using sl1 db1 R1 True by auto
    next
      case False
      note short1 = False
      have d1: "filter isDbCall ev1 = [Q1]" using db1 R1 by simp
      show ?thesis
      proof (cases r2)
        case (Inl m)
        then have "res = r2 \<and> evs = ev2" using U R1 short1 by (auto simp add: D)
        then show ?thesis using sl2 db2 d1 R1 short1 Inl by auto
      next
        case (Inr cs2)
        note R2 = Inr
        have d2: "filter isDbCall ev2 = [Q1, Q2]" using db2 d1 R2 by simp
        show ?thesis
        proof (cases "3 \<le> length cs2")
          case True
          then have "res = r2 \<and> evs = ev2" using U R1 R2 short1 by (auto simp add: D)
          then show ?thesis using sl2 d2 R1 R2 short1 True by auto
        next
          case False
          note short2 = False
          have d3: "filter isDbCall ev3 = [Q1, Q2, FindManyChunks pid 100]"
            using db3 d2 by simp
          have d4: "filter isDbCall ev4 = [Q1, Q2, FindManyChunks pid 100, FindManyChunks pid 10]"
            using db4 d3 by simp
          have s1': "\<exists>cs. r1 = Inr cs \<and> length cs < 3" using R1 short1 by simp
          have s2': "\<exists>cs. r2 = Inr cs \<and> length cs < 3" using R2 short2 by simp
          show ?thesis
          proof (cases "r3 = Inr []")
            case False
            then have "res = r3 \<and> evs = ev3"
              using U R1 R2 short1 short2 by (auto simp add: D split: option.splits)
            then show ?thesis using sl3 d3 s1' s2' False by simp
          next
            case True
            then have "res = r4 \<and> evs = ev4"
              using U R1 R2 short1 short2 by (auto simp add: D split: option.splits)
            then show ?thesis using sl4 d4 s1' s2' True by simp
          qed
        qed
      qed
    qed
  qed
  show ?thesis
    apply (rule exI [of _ r1])
    apply (rule exI [of _ r2])
    apply (rule exI [of _ r3])
    apply (rule exI [of _ r4])
    apply (rule exI [of _ "h @ e0"])
    apply (rule exI [of _ "h @ ev1"])
    apply (rule exI [of _ "h @ ev2"])
    apply (rule exI [of _ "h @ ev3"])
    apply (intro conjI)
        apply (rule e1)
       apply (rule e2)
      apply (rule r3_def)
     apply (rule r4_def)
    apply (rule big)
    done
qed

lemma strategyLog_mem: "(n, r) \<in> set (strategyLog evs) \<longleftrightarrow> Strategy n r \<in> set evs"
  by (induction evs rule: strategyLog.induct) auto



lemmas retrieval_eval =
  smartRetrieval_def rewriteQuery_def rewriteTry_def normalization_def decompose_def expand_def
  isCompoundQuery_def compoundMarkers_def chatDown_def
  searchSimilarChunks_def embedText_def blank_def trim_def isWhiteSpace_def isDigit_def Let_def
  similarityQuery_def orderByDistance_def joinedRows_def sampleDb_def sampleRow_def samplePdf_def
  js_def envWithDistance_def sampleEnv_def findManyChunks_def everyNth_def samplingStep_def

lemma sample_retrieval_result:
  "fst (smartRetrieval (envWithDistance 1) sampleDb [] (js ''q'') (js ''p1'') samplePdf) =
     Inr (map rowToChunk [sampleRow ''c0'' 0, sampleRow ''c1'' 1])"
  by (simp add: retrieval_eval)


lemma longDb_three:
  "longDb 3 = \<lparr>pdfs = [longPdf 3], document_chunks = [longRow 0, longRow 1, longRow 2]\<rparr>"
  by (simp add: longDb_def upt_conv_Cons numeral_2_eq_2)


lemma three_retrieval_result:
  "fst (smartRetrieval (envWithDistance (1 / 2)) (longDb 3) [] (js ''q'') (js ''p1'') (longPdf 3)) =
     Inr [halfChunk 0, halfChunk 1, halfChunk 2]"
  unfolding longDb_three
  by (simp add: retrieval_eval longPdf_def longRow_def halfChunk_def decimal.simps)

















section \<open>Properties of the question handler\<close>

lemma POST_not_ready:
  assumes "auth e h = Inr (SessionOf uid)" and "trim msg \<noteq> []" and "pid \<noteq> []"
    and "findFirstPdf db pid uid = Some p" and "status p \<noteq> js ''ready''"
  shows "POST e db h (Body (Some msg) (Some pid)) =
     (if status p = js ''processing'' then PdfProcessing (status p)
      else if status p = js ''failed'' then PdfFailed (errorMessage p)
      else PdfStatusAbnormal (status p),
      [AuthCall, FindFirstPdf pid uid])"
  using assms by (simp add: POST_def)

lemma smartRetrieval_calls_nonempty:
  "snd (smartRetrieval e db h q pid p) \<noteq> []"
proof -
  obtain res evs where run: "smartRetrieval e db h q pid p = (res, evs)" by force
  from smartRetrieval_shape [OF run] have "strategyLog evs \<noteq> []" by auto
  then have "evs \<noteq> []" by auto
  then show ?thesis using run by simp
qed

lemma POST_retrieval_only_when_ready:
  assumes run: "POST e db h body = (resp, evs)" and ev: "ev \<in> set evs" and r: "isRetrievalCall ev"
  shows "\<exists>uid msg pid p. auth e h = Inr (SessionOf uid) \<and> body = Body (Some msg) (Some pid) \<and>
            findFirstPdf db pid uid = Some p \<and> status p = js ''ready''"
proof (cases "auth e h")
  case (Inl m)
  then show ?thesis using run ev r by (auto simp add: POST_def)
next
  case (Inr s)
  show ?thesis
  proof (cases s)
    case NoSession
    then show ?thesis using run ev r Inr by (auto simp add: POST_def)
  next
    case (SessionOf uid)
    note A = Inr [unfolded SessionOf]
    show ?thesis
    proof (cases body)
      case (BadJson m)
      then show ?thesis using run ev r A by (auto simp add: POST_def)
    next
      case (Body mo po)
      show ?thesis
      proof (cases mo)
        case None
        then show ?thesis using run ev r A Body by (auto simp add: POST_def)
      next
        case (Some msg)
        note M = Some
        show ?thesis
        proof (cases "trim msg = []")
          case True
          then show ?thesis using run ev r A Body M by (auto simp add: POST_def)
        next
          case False
          note T = False
          show ?thesis
          proof (cases po)
            case None
            then show ?thesis using run ev r A Body M T by (auto simp add: POST_def)
          next
            case (Some pid)
            note P = Some
            show ?thesis
            proof (cases "pid = []")
              case True
              then show ?thesis using run ev r A Body M T P by (auto simp add: POST_def)
            next
              case False
              note N = False
              show ?thesis
              proof (cases "findFirstPdf db pid uid")
                case None
                then show ?thesis using run ev r A Body M T P N by (auto simp add: POST_def)
              next
                case (Some p)
                show ?thesis
                proof (cases "status p = js ''ready''")
                  case True
                  then show ?thesis using A Body M P Some by simp
                next
                  case False
                  from POST_not_ready [OF A T N Some False]
                  have "evs = [AuthCall, FindFirstPdf pid uid]"
                    using run Body M P by simp
                  then show ?thesis using ev r by auto
                qed
              qed
            qed
          qed
        qed
      qed
    qed
  qed
qed


lemma status_literals:
  "js ''processing'' \<noteq> js ''ready''" "js ''failed'' \<noteq> js ''ready''"
  "js ''processing'' \<noteq> js ''failed''"
  by (simp_all add: js_def)

text \<open>
  Claim C8. A question by a logged-in user with a message and a document id,
  about a document of theirs whose status is \<open>processing\<close> or \<open>failed\<close>, is
  answered with status code 400 and the message of that state, the body of the
  \<open>failed\<close> case carrying the error message of the document. The handler has
  then made two calls, the session check and the lookup of the document: no
  call of the language model, of embedText, of the embedding service or of the
  chunk store. In general, a run of the handler that makes any such call is
  about a document whose status is \<open>ready\<close>.
\<close>

theorem POST_rejects_before_retrieval:
  assumes session: "auth e h = Inr (SessionOf uid)"
    and message: "trim msg \<noteq> []" and given: "pid \<noteq> []"
    and found: "findFirstPdf db pid uid = Some p"
    and state: "status p = js ''processing'' \<or> status p = js ''failed''"
  shows "POST e db h (Body (Some msg) (Some pid)) =
           (if status p = js ''processing'' then PdfProcessing (js ''processing'')
            else PdfFailed (errorMessage p),
            [AuthCall, FindFirstPdf pid uid])
    \<and> httpStatus (fst (POST e db h (Body (Some msg) (Some pid)))) = 400
    \<and> errorText (fst (POST e db h (Body (Some msg) (Some pid)))) =
          Some (if status p = js ''processing'' then msgProcessing else msgFailed)
    \<and> msgProcessing \<noteq> msgFailed
    \<and> (status p = js ''failed'' \<longrightarrow>
          details (fst (POST e db h (Body (Some msg) (Some pid)))) = errorMessage p)
    \<and> list_all (\<lambda>ev. \<not> isRetrievalCall ev) (snd (POST e db h (Body (Some msg) (Some pid))))
    \<and> (\<forall>body resp evs. POST e db h body = (resp, evs) \<and> list_ex isRetrievalCall evs \<longrightarrow>
          (\<exists>uid' msg' pid' p'. body = Body (Some msg') (Some pid') \<and>
              findFirstPdf db pid' uid' = Some p' \<and> status p' = js ''ready''))"
proof -
  have nr: "status p \<noteq> js ''ready''" using state status_literals by auto
  have run: "POST e db h (Body (Some msg) (Some pid)) =
           (if status p = js ''processing'' then PdfProcessing (js ''processing'')
            else PdfFailed (errorMessage p),
            [AuthCall, FindFirstPdf pid uid])"
    using POST_not_ready [OF session message given found nr] state by auto
  have diff: "msgProcessing \<noteq> msgFailed" by (simp add: msgProcessing_def msgFailed_def)
  have general: "\<forall>body resp evs. POST e db h body = (resp, evs) \<and> list_ex isRetrievalCall evs \<longrightarrow>
          (\<exists>uid' msg' pid' p'. body = Body (Some msg') (Some pid') \<and>
              findFirstPdf db pid' uid' = Some p' \<and> status p' = js ''ready'')"
  proof (intro allI impI, elim conjE)
    fix body resp evs
    assume r: "POST e db h body = (resp, evs)" and "list_ex isRetrievalCall evs"
    then obtain ev where "ev \<in> set evs" "isRetrievalCall ev" by (auto simp add: list_ex_iff)
    from POST_retrieval_only_when_ready [OF r this]
    show "\<exists>uid' msg' pid' p'. body = Body (Some msg') (Some pid') \<and>
              findFirstPdf db pid' uid' = Some p' \<and> status p' = js ''ready''"
      by blast
  qed
  have rest: "httpStatus (fst (POST e db h (Body (Some msg) (Some pid)))) = 400
    \<and> errorText (fst (POST e db h (Body (Some msg) (Some pid)))) =
          Some (if status p = js ''processing'' then msgProcessing else msgFailed)
    \<and> (status p = js ''failed'' \<longrightarrow>
          details (fst (POST e db h (Body (Some msg) (Some pid)))) = errorMessage p)
    \<and> list_all (\<lambda>ev. \<not> isRetrievalCall ev) (snd (POST e db h (Body (Some msg) (Some pid))))"
    unfolding run using status_literals by simp
  from run diff general rest show ?thesis by blast
qed

text \<open>The sample document in each of the two states.\<close>

theorem POST_rejects_before_retrieval_witness:
  "POST (sampleEnv chatDown embedDown) (dbWithStatus ''processing'' None) [] sampleBody =
     (PdfProcessing (js ''processing''), [AuthCall, FindFirstPdf (js ''p1'') (js ''u1'')])
   \<and> POST (sampleEnv chatDown embedDown) (dbWithStatus ''failed'' (Some (js ''parse error'')))
        [] sampleBody =
     (PdfFailed (Some (js ''parse error'')), [AuthCall, FindFirstPdf (js ''p1'') (js ''u1'')])"
proof -
  let ?e = "sampleEnv chatDown embedDown"
  let ?msg = "js ''What is the refund policy?''"
  have session: "auth ?e [] = Inr (SessionOf (js ''u1''))" by (simp add: sampleEnv_def)
  have message: "trim ?msg \<noteq> []" by (simp add: js_def trim_def isWhiteSpace_def)
  have given: "js ''p1'' \<noteq> []" by (simp add: js_def)
  let ?p1 = "samplePdf\<lparr>status := js ''processing'', errorMessage := None\<rparr>"
  let ?p2 = "samplePdf\<lparr>status := js ''failed'', errorMessage := Some (js ''parse error'')\<rparr>"
  have found1: "findFirstPdf (dbWithStatus ''processing'' None) (js ''p1'') (js ''u1'') = Some ?p1"
    by (simp add: findFirstPdf_def dbWithStatus_def sampleDb_def samplePdf_def)
  have found2: "findFirstPdf (dbWithStatus ''failed'' (Some (js ''parse error''))) (js ''p1'') (js ''u1'')
      = Some ?p2"
    by (simp add: findFirstPdf_def dbWithStatus_def sampleDb_def samplePdf_def)
  have state1: "status ?p1 = js ''processing'' \<or> status ?p1 = js ''failed''" by simp
  have state2: "status ?p2 = js ''processing'' \<or> status ?p2 = js ''failed''" by simp
  have ne: "js ''failed'' \<noteq> js ''processing''" by (simp add: js_def)
  from POST_rejects_before_retrieval [OF session message given found1 state1]
  have a: "POST ?e (dbWithStatus ''processing'' None) [] (Body (Some ?msg) (Some (js ''p1''))) =
     (PdfProcessing (js ''processing''), [AuthCall, FindFirstPdf (js ''p1'') (js ''u1'')])"
    by simp
  from POST_rejects_before_retrieval [OF session message given found2 state2]
  have b: "POST ?e (dbWithStatus ''failed'' (Some (js ''parse error''))) []
       (Body (Some ?msg) (Some (js ''p1''))) =
     (PdfFailed (Some (js ''parse error'')), [AuthCall, FindFirstPdf (js ''p1'') (js ''u1'')])"
    using ne by simp
  from a b show ?thesis by (simp add: sampleBody_def)
qed

section \<open>Properties of batch embedding\<close>

text \<open>embedBatch makes no call but those of the embedder.\<close>

lemma retryEach_calls: "retryEach e h ts = (vs, evs) \<Longrightarrow> list_all isEmbeddingCall evs"
proof (induction ts arbitrary: h vs evs)
  case Nil
  then show ?case by simp
next
  case (Cons t ts)
  obtain r ev1 where et: "embedText e h t = (r, ev1)" by force
  obtain vs' ev2 where re: "retryEach e (h @ ev1) ts = (vs', ev2)" by force
  have evs: "evs = ev1 @ ev2" using Cons.prems et re by simp
  have "list_all isEmbeddingCall ev1" using embedText_events [OF et] by auto
  moreover have "list_all isEmbeddingCall ev2" using re by (rule Cons.IH)
  ultimately show ?case by (simp add: evs)
qed

lemma embedOneBatch_calls:
  assumes "embedOneBatch e h batch = (vs, evs)"
  shows "list_all isEmbeddingCall evs"
proof -
  let ?ev = "EmbeddingsFetch (Batch batch) (embeddings e h (Batch batch))"
  obtain vs' evs' where re: "retryEach e (h @ [?ev]) batch = (vs', evs')" by force
  have "evs = [?ev] \<or> evs = ?ev # evs'"
    using assms re by (auto simp add: embedOneBatch_def Let_def split: option.splits if_splits)
  then show ?thesis using retryEach_calls [OF re] by auto
qed

lemma batchLoop_calls:
  assumes "0 < batchSize"
  shows "list_all isEmbeddingCall evs \<Longrightarrow>
     batchLoop e h texts batchSize i results evs = Some (vs, evs') \<Longrightarrow>
     list_all isEmbeddingCall evs'"
proof (induction "length texts - i" arbitrary: i results evs rule: less_induct)
  case less
  show ?case
  proof (cases "i < length texts")
    case False
    then have "batchLoop e h texts batchSize i results evs = Some (results, evs)"
      by (subst batchLoop.simps) simp
    then show ?thesis using less.prems by simp
  next
    case True
    define batch where "batch = take batchSize (drop i texts)"
    obtain ws ev where ob: "embedOneBatch e (h @ evs) batch = (ws, ev)" by force
    have step: "batchLoop e h texts batchSize i results evs =
        batchLoop e h texts batchSize (i + batchSize) (results @ ws) (evs @ ev)"
      using True ob by (subst batchLoop.simps) (simp add: batch_def Let_def)
    have inv: "list_all isEmbeddingCall (evs @ ev)"
      using less.prems(1) embedOneBatch_calls [OF ob] by simp
    have "length texts - (i + batchSize) < length texts - i"
      using True assms by simp
    from less.hyps [OF this inv] less.prems(2) show ?thesis unfolding step .
  qed
qed

text \<open>With a positive batch size the loop ends.\<close>

lemma batchLoop_returns:
  assumes "0 < batchSize"
  shows "\<exists>vs evs'. batchLoop e h texts batchSize i results evs = Some (vs, evs')"
proof (induction "length texts - i" arbitrary: i results evs rule: less_induct)
  case less
  show ?case
  proof (cases "i < length texts")
    case False
    then have "batchLoop e h texts batchSize i results evs = Some (results, evs)"
      by (subst batchLoop.simps) simp
    then show ?thesis by simp
  next
    case True
    define batch where "batch = take batchSize (drop i texts)"
    obtain ws ev where ob: "embedOneBatch e (h @ evs) batch = (ws, ev)" by force
    have step: "batchLoop e h texts batchSize i results evs =
        batchLoop e h texts batchSize (i + batchSize) (results @ ws) (evs @ ev)"
      using True ob by (subst batchLoop.simps) (simp add: batch_def Let_def)
    have "length texts - (i + batchSize) < length texts - i"
      using True assms by simp
    from less.hyps [OF this] show ?thesis unfolding step .
  qed
qed

lemma embedBatch_result:
  assumes size: "0 < batchSize"
  shows "\<exists>r evs. embedBatch e h texts batchSize = Some (r, evs) \<and>
           list_all isEmbeddingCall evs \<and>
           (if texts \<noteq> [] \<and> \<not> truthy (apiKey e) then r = Inl msgApiKeyMissing
            else \<exists>vs. r = Inr vs)"
proof (cases "texts = []")
  case True
  then show ?thesis by (simp add: embedBatch_def)
next
  case False
  show ?thesis
  proof (cases "truthy (apiKey e)")
    case False
    then show ?thesis using \<open>texts \<noteq> []\<close> by (simp add: embedBatch_def)
  next
    case True
    from batchLoop_returns [OF size]
    obtain vs evs where loop: "batchLoop e h texts batchSize 0 [] [] = Some (vs, evs)" by blast
    have calls: "list_all isEmbeddingCall evs"
      using batchLoop_calls [OF size _ loop] by simp
    have "embedBatch e h texts batchSize = Some (Inr vs, evs)"
      using False True loop by (simp add: embedBatch_def)
    then show ?thesis using calls True by simp
  qed
qed

text \<open>Where no reply to a batch carries a cost that cannot be converted, the
  result has one element for each text.\<close>

lemma retryEach_length: "retryEach e h ts = (vs, evs) \<Longrightarrow> length vs = length ts"
proof (induction ts arbitrary: h vs evs)
  case Nil
  then show ?case by simp
next
  case (Cons t ts)
  obtain r ev1 where et: "embedText e h t = (r, ev1)" by force
  obtain vs' ev2 where re: "retryEach e (h @ ev1) ts = (vs', ev2)" by force
  have "length vs = Suc (length vs')" using Cons.prems et re by auto
  then show ?case using Cons.IH [OF re] by simp
qed

lemma itemEmbeddings_length:
  "itemEmbeddings items = Some vs \<Longrightarrow> length vs = length items"
proof (induction items arbitrary: vs)
  case Nil
  then show ?case by simp
next
  case (Cons it items)
  then show ?case by (cases it) auto
qed

lemma batchVectors_length: "batchVectors res n = Some vs \<Longrightarrow> length vs = n"
  by (induction res n rule: batchVectors.induct)
     (auto split: if_splits dest: itemEmbeddings_length)

lemma embedOneBatch_length:
  assumes "embedOneBatch e h batch = (vs, evs)"
    and "\<not> costThrows (embeddings e h (Batch batch))"
  shows "length vs = length batch"
proof (cases "batchVectors (embeddings e h (Batch batch)) (length batch)")
  case (Some vectors)
  then have "vs = vectors" using assms by (simp add: embedOneBatch_def Let_def)
  then show ?thesis using batchVectors_length [OF Some] by simp
next
  case None
  obtain vs' evs' where re: "retryEach e
      (h @ [EmbeddingsFetch (Batch batch) (embeddings e h (Batch batch))]) batch = (vs', evs')"
    by force
  then have "vs = vs'" using assms None by (simp add: embedOneBatch_def Let_def)
  then show ?thesis using retryEach_length [OF re] by simp
qed

lemma batchLoop_length:
  assumes "0 < batchSize" and cost: "\<And>h' ts. \<not> costThrows (embeddings e h' (Batch ts))"
  shows "length results = length (take i texts) \<Longrightarrow>
     batchLoop e h texts batchSize i results evs = Some (vs, evs') \<Longrightarrow>
     length vs = length texts"
proof (induction "length texts - i" arbitrary: i results evs rule: less_induct)
  case less
  show ?case
  proof (cases "i < length texts")
    case False
    then have "batchLoop e h texts batchSize i results evs = Some (results, evs)"
      by (subst batchLoop.simps) simp
    then show ?thesis using less.prems False by simp
  next
    case True
    define batch where "batch = take batchSize (drop i texts)"
    obtain ws ev where ob: "embedOneBatch e (h @ evs) batch = (ws, ev)" by force
    have step: "batchLoop e h texts batchSize i results evs =
        batchLoop e h texts batchSize (i + batchSize) (results @ ws) (evs @ ev)"
      using True ob by (subst batchLoop.simps) (simp add: batch_def Let_def)
    have "length ws = length batch" using ob cost by (rule embedOneBatch_length)
    moreover have "take (i + batchSize) texts = take i texts @ batch"
      by (simp add: batch_def take_add)
    ultimately have inv: "length (results @ ws) = length (take (i + batchSize) texts)"
      using less.prems(1) by simp
    have "length texts - (i + batchSize) < length texts - i"
      using True assms(1) by simp
    from less.hyps [OF this inv] less.prems(2) show ?thesis unfolding step .
  qed
qed

lemma embedBatch_length:
  assumes size: "0 < batchSize" and key: "truthy (apiKey e)"
    and cost: "\<And>h' ts. \<not> costThrows (embeddings e h' (Batch ts))"
  shows "\<exists>vs evs. embedBatch e h texts batchSize = Some (Inr vs, evs) \<and>
            length vs = length texts"
proof (cases "texts = []")
  case True
  then show ?thesis by (simp add: embedBatch_def)
next
  case False
  from batchLoop_returns [OF size]
  obtain vs evs where loop: "batchLoop e h texts batchSize 0 [] [] = Some (vs, evs)" by blast
  have "length vs = length texts"
    using batchLoop_length [OF size cost _ loop] by simp
  moreover have "embedBatch e h texts batchSize = Some (Inr vs, evs)"
    using False key loop by (simp add: embedBatch_def)
  ultimately show ?thesis by simp
qed

lemmas embed_eval =
  embedBatch_def embedOneBatch_def embedText_def blank_def trim_def isWhiteSpace_def Let_def
  sampleEnv_def js_def

lemma embedBatch_partly:
  "embedBatch (sampleEnv chatDown embedPartly) [] [js ''a'', js ''b''] 50 =
     Some (Inr [Some [1 / 2, 1 / 2, 1 / 2], Some zeroVector],
           [EmbeddingsFetch (Batch [js ''a'', js ''b'']) (ENotOk 429 []),
            EmbedTextCall (js ''a''),
            EmbeddingsFetch (Single (js ''a'')) (EData (Some [Item (Some [1 / 2, 1 / 2, 1 / 2])]) []),
            EmbedTextCall (js ''b''),
            EmbeddingsFetch (Single (js ''b'')) (ENotOk 429 [])])"
  by (simp add: embed_eval batchLoop.simps)

text \<open>
  Claim C4 does not hold of the code. The cost of a batch is added up inside
  the \<open>try\<close> block, after the vectors of the batch were pushed (lines 612 to
  617): when that throws, the \<open>catch\<close> block retries every text of the batch
  and pushes again. With a service whose replies carry a cost that cannot be
  converted, two texts give four elements: the two vectors of the batch, then
  two zero vectors, the retries throwing on the same cost in embedText.
\<close>

theorem embedBatch_pushes_twice:
  "embedBatch (sampleEnv chatDown embedBadCost) [] [js ''a'', js ''b''] 50 =
     Some (Inr [Some [1 / 2], Some [1 / 2], Some zeroVector, Some zeroVector],
           [EmbeddingsFetch (Batch [js ''a'', js ''b''])
              (EBadCost (Some [Item (Some [1 / 2]), Item (Some [1 / 2])]) []),
            EmbedTextCall (js ''a''),
            EmbeddingsFetch (Single (js ''a'')) (EBadCost (Some [Item (Some [1 / 2])]) []),
            EmbedTextCall (js ''b''),
            EmbeddingsFetch (Single (js ''b'')) (EBadCost (Some [Item (Some [1 / 2])]) [])])"
  by (simp add: embed_eval batchLoop.simps)

text \<open>
  Claim C5 does not hold of the code: the zero vector has 1024 entries whatever
  the model. With a model of three dimensions, a refused batch and one refused
  retry, the result holds a vector of length 3 and one of length 1024.
\<close>

theorem embedBatch_mixed_dimensions:
  "map_option (\<lambda>r. case fst r of Inr vs \<Rightarrow> map (map_option length) vs | Inl m \<Rightarrow> [])
     (embedBatch (sampleEnv chatDown embedPartly) [] [js ''a'', js ''b''] 50)
   = Some [Some 3, Some 1024]"
  by (simp add: embedBatch_partly zeroVector_def)

section \<open>Properties of the ingestion job\<close>

text \<open>The loop leaves table \<open>pdfs\<close> alone, adds one row per accepted insert and
  counts them; it stops with the error of the sixth refusal.\<close>

lemma insertLoop_counts:
  assumes "insertLoop e h pid d vectors cs i db sc fc = (r, db', evs)" and "fc \<le> 5"
  shows "pdfs db' = pdfs db
    \<and> length (document_chunks db') = length (document_chunks db) + length (filter insertOk evs)
    \<and> (\<forall>ev \<in> set evs. \<exists>row err. ev = InsertChunk row err)
    \<and> (case r of
          Inr n \<Rightarrow> n = sc + length (filter insertOk evs) \<and>
                   fc + length (filter insertFailed evs) \<le> 5
        | Inl m \<Rightarrow> m = msgTooManyFailures 6 \<and> fc + length (filter insertFailed evs) = 6)"
  using assms
proof (induction cs arbitrary: h i db sc fc r db' evs)
  case Nil
  then show ?case by auto
next
  case (Cons c cs)
  define row where "row = chunkRowOf pid i c (vectorAt vectors i)"
  define err where "err = insertError e h row d"
  define ev where "ev = InsertChunk row err"
  show ?case
  proof (cases err)
    case None
    obtain r1 db1 evs1 where rec: "insertLoop e (h @ [ev]) pid d vectors cs (i + 1)
        (db\<lparr>document_chunks := document_chunks db @ [row]\<rparr>) (sc + 1) fc = (r1, db1, evs1)"
      by (metis prod_cases3)
    have evN: "ev = InsertChunk row None" using None by (simp add: ev_def)
    have eq: "r = r1 \<and> db' = db1 \<and> evs = ev # evs1"
      using Cons.prems(1) None rec [unfolded evN]
      by (simp add: Let_def row_def [symmetric] err_def [symmetric] evN)
    have ok: "insertOk ev" "\<not> insertFailed ev" using None by (simp_all add: ev_def)
    from Cons.IH [OF rec Cons.prems(2)] show ?thesis
      using eq ok by (cases r1) (auto simp add: ev_def)
  next
    case (Some m)
    have bad: "\<not> insertOk ev" "insertFailed ev" using Some by (simp_all add: ev_def)
    show ?thesis
    proof (cases "5 < fc + 1")
      case True
      have evS: "ev = InsertChunk row (Some m)" using Some by (simp add: ev_def)
      from True have eq: "r = Inl (msgTooManyFailures (fc + 1)) \<and> db' = db \<and> evs = [ev]"
        using Cons.prems(1) Some
        by (auto simp add: Let_def row_def [symmetric] err_def [symmetric] evS)
      have "fc = 5" using True Cons.prems(2) by simp
      then show ?thesis using eq bad by (auto simp add: ev_def)
    next
      case False
      obtain r1 db1 evs1 where rec: "insertLoop e (h @ [ev]) pid d vectors cs (i + 1)
          db sc (fc + 1) = (r1, db1, evs1)"
        by (metis prod_cases3)
      have evS: "ev = InsertChunk row (Some m)" using Some by (simp add: ev_def)
      have eq: "r = r1 \<and> db' = db1 \<and> evs = ev # evs1"
        using Cons.prems(1) Some rec [unfolded evS] False
        by (auto simp add: Let_def row_def [symmetric] err_def [symmetric] evS)
      have "fc + 1 \<le> 5" using False by simp
      from Cons.IH [OF rec this] show ?thesis
        using eq bad by (cases r1) (auto simp add: ev_def)
    qed
  qed
qed

text \<open>What the events of the stages are not.\<close>

lemma embedding_calls_filters:
  "list_all isEmbeddingCall evs \<Longrightarrow>
     filter insertOk evs = [] \<and> filter insertFailed evs = [] \<and> \<not> list_ex sourceFailed evs \<and>
     (\<forall>p m. ReadPdf p m \<notin> set evs) \<and> (\<forall>t m. SplitText t m \<notin> set evs) \<and>
     (\<forall>i st err. UpdatePdf i st err \<notin> set evs)"
proof (induction evs)
  case Nil
  show ?case by simp
next
  case (Cons ev evs)
  then show ?case by (cases ev) auto
qed

lemma insert_events_filters:
  "\<forall>ev \<in> set evs. \<exists>row err. ev = InsertChunk row err \<Longrightarrow>
     \<not> list_ex sourceFailed evs \<and>
     (\<forall>p m. ReadPdf p m \<notin> set evs) \<and> (\<forall>t m. SplitText t m \<notin> set evs) \<and>
     (\<forall>i st err. UpdatePdf i st err \<notin> set evs)"
  by (auto simp add: list_ex_iff)


lemma chunkText_cases:
  assumes "chunkText e h text = (cr, evc)"
  shows "(cr = Inr [] \<and> evc = []) \<or>
         (\<exists>m. cr = Inl (msgChunkingFailed m) \<and> evc = [SplitText text (Inl m)]) \<or>
         (\<exists>docs cs. cr = Inr cs \<and> evc = [SplitText text (Inr docs)])"
proof (cases "blank text")
  case True
  then show ?thesis using assms by (simp add: chunkText_def)
next
  case False
  then show ?thesis using assms
    by (cases "splitter e h text") (auto simp add: chunkText_def Let_def)
qed

text \<open>
  The job up to the end of the loop always returns. It is rejected only by a
  file that cannot be read, a text that cannot be split, a missing API key or
  a sixth refused insert.
\<close>

lemma ingest_result:
  "\<exists>r db1 ev1. ingest e db h pid path = Some (r, db1, ev1)
     \<and> pdfs db1 = pdfs db
     \<and> length (document_chunks db1) =
         length (document_chunks db) + length (filter insertOk ev1)
     \<and> (case r of
           Inr (n, np) \<Rightarrow> n = length (filter insertOk ev1) \<and>
                          length (filter insertFailed ev1) \<le> 5
         | Inl m \<Rightarrow> True)
     \<and> (\<not> list_ex sourceFailed ev1 \<and> truthy (apiKey e) \<and>
          length (filter insertFailed ev1) \<le> 5 \<longrightarrow> (\<exists>n np. r = Inr (n, np)))
     \<and> (\<forall>p m. ReadPdf p (Inl m) \<in> set ev1 \<longrightarrow> r = Inl m)
     \<and> (\<forall>t m. SplitText t (Inl m) \<in> set ev1 \<longrightarrow> r = Inl (msgChunkingFailed m))
     \<and> (5 < length (filter insertFailed ev1) \<longrightarrow> r = Inl (msgTooManyFailures 6))
     \<and> (\<forall>i st err. UpdatePdf i st err \<notin> set ev1)"
proof (cases "readPdf e h path")
  case (Inl m)
  then have "ingest e db h pid path = Some (Inl m, db, [ReadPdf path (Inl m)])"
    by (simp add: ingest_def Let_def)
  then show ?thesis by simp
next
  case (Inr pd)
  obtain src np where pd: "pd = (src, np)" by (cases pd) auto
  define ev0 where "ev0 = [ReadPdf path (Inr (src, np))]"
  obtain cr evc where ct: "chunkText e (h @ ev0) src = (cr, evc)" by force
  have q0: "filter insertOk ev0 = []" "filter insertFailed ev0 = []"
    "\<not> list_ex sourceFailed ev0" "\<forall>p m. ReadPdf p (Inl m) \<notin> set ev0"
    "\<forall>t m. SplitText t (Inl m) \<notin> set ev0" "\<forall>i st err. UpdatePdf i st err \<notin> set ev0"
    by (simp_all add: ev0_def)
  have qc: "filter insertOk evc = []" "filter insertFailed evc = []"
    "\<forall>p m. ReadPdf p (Inl m) \<notin> set evc" "\<forall>i st err. UpdatePdf i st err \<notin> set evc"
    using chunkText_cases [OF ct] by auto
  show ?thesis
  proof (cases cr)
    case (Inl m')
    then obtain m where m: "m' = msgChunkingFailed m" "evc = [SplitText src (Inl m)]"
      using chunkText_cases [OF ct] by auto
    have "ingest e db h pid path = Some (Inl (msgChunkingFailed m), db, ev0 @ evc)"
      using Inr pd ct Inl m by (simp add: ingest_def Let_def ev0_def)
    then show ?thesis using q0 m by (simp add: ev0_def)
  next
    case (Inr chunks)
    note CR = Inr
    have qs: "\<not> list_ex sourceFailed evc" "\<forall>t m. SplitText t (Inl m) \<notin> set evc"
      using chunkText_cases [OF ct] CR by auto
    from embedBatch_result [of 50 e "h @ ev0 @ evc" "map tc_content chunks"]
    obtain r2 ev2 where eb: "embedBatch e (h @ ev0 @ evc) (map tc_content chunks) 50 = Some (r2, ev2)"
      and calls: "list_all isEmbeddingCall ev2"
      and alt: "if map tc_content chunks \<noteq> [] \<and> \<not> truthy (apiKey e) then r2 = Inl msgApiKeyMissing
            else \<exists>vs. r2 = Inr vs"
      by auto
    note q2 = embedding_calls_filters [OF calls]
    show ?thesis
    proof (cases r2)
      case (Inl m2)
      then have nokey: "\<not> truthy (apiKey e)" using alt by (auto split: if_splits)
      have "ingest e db h pid path = Some (Inl m2, db, ev0 @ evc @ ev2)"
        using \<open>readPdf e h path = Inr pd\<close> pd ct CR eb Inl
        by (simp add: ingest_def Let_def ev0_def)
      then show ?thesis using q0 qc qs q2 nokey by (simp add: ev0_def)
    next
      case (Inr vectors)
      obtain r3 db3 ev3 where il: "insertLoop e (h @ ev0 @ evc @ ev2) pid
          (actualDimension vectors) vectors chunks 0 db 0 0 = (r3, db3, ev3)"
        by (metis prod_cases3)
      have ing: "ingest e db h pid path =
          Some (map_sum id (\<lambda>n. (n, np)) r3, db3, ev0 @ evc @ ev2 @ ev3)"
        using \<open>readPdf e h path = Inr pd\<close> pd ct CR eb Inr il
        by (simp add: ingest_def Let_def ev0_def)
      from insertLoop_counts [OF il]
      have c: "pdfs db3 = pdfs db"
        "length (document_chunks db3) = length (document_chunks db) + length (filter insertOk ev3)"
        "\<forall>ev \<in> set ev3. \<exists>row err. ev = InsertChunk row err"
        "case r3 of
          Inr n \<Rightarrow> n = 0 + length (filter insertOk ev3) \<and>
                   0 + length (filter insertFailed ev3) \<le> 5
        | Inl m \<Rightarrow> m = msgTooManyFailures 6 \<and> 0 + length (filter insertFailed ev3) = 6"
        by simp_all
      note q3 = insert_events_filters [OF c(3)]
      have fo: "filter insertOk (ev0 @ evc @ ev2 @ ev3) = filter insertOk ev3"
        and ff: "filter insertFailed (ev0 @ evc @ ev2 @ ev3) = filter insertFailed ev3"
        using q0 qc q2 by simp_all
      have nr: "\<forall>p m. ReadPdf p (Inl m) \<notin> set (ev0 @ evc @ ev2 @ ev3)"
        using q0 qc q2 q3 by auto
      have ns: "\<forall>t m. SplitText t (Inl m) \<notin> set (ev0 @ evc @ ev2 @ ev3)"
        using q0 qs q2 q3 by auto
      have nu: "\<forall>i st err. UpdatePdf i st err \<notin> set (ev0 @ evc @ ev2 @ ev3)"
        using q0 qc q2 q3 by auto
      show ?thesis
      proof (cases r3)
        case (Inl m3)
        then show ?thesis using ing c fo ff nr ns nu by simp
      next
        case (Inr n)
        then show ?thesis using ing c fo ff nr ns nu by simp
      qed
    qed
  qed
qed


text \<open>An accepted update rewrites the rows of the document, and there is one.\<close>

lemma updatePdf_Inr:
  assumes "updatePdf e h db pid f = Inr db2" and "\<And>p. pdf_row_id (f p) = pdf_row_id p"
  shows "document_chunks db2 = document_chunks db \<and> pdfRowsOf db pid \<noteq> [] \<and>
         pdfRowsOf db2 pid = map f (pdfRowsOf db pid)"
proof -
  have ex: "list_ex (\<lambda>p. pdf_row_id p = pid) (pdfs db)"
    and db2: "db2 = db\<lparr>pdfs := map (\<lambda>p. if pdf_row_id p = pid then f p else p) (pdfs db)\<rparr>"
    using assms(1) by (auto simp add: updatePdf_def split: option.splits if_splits)
  have "filter (\<lambda>p. pdf_row_id p = pid) (map (\<lambda>p. if pdf_row_id p = pid then f p else p) ps)
      = map f (filter (\<lambda>p. pdf_row_id p = pid) ps)" for ps
    by (induction ps) (simp_all add: assms(2))
  then have "pdfRowsOf db2 pid = map f (pdfRowsOf db pid)"
    by (simp add: pdfRowsOf_def db2)
  moreover have "pdfRowsOf db pid \<noteq> []"
    using ex by (auto simp add: pdfRowsOf_def list_ex_iff filter_empty_conv)
  ultimately show ?thesis by (simp add: db2)
qed


lemma status_names:
  "js ''ready'' \<noteq> js ''failed''" "js ''failed'' \<noteq> js ''ready''"
  by (simp_all add: js_def)

lemma failed_update:
  assumes "updatePdf e g d pid (markFailed m) = u"
  shows "\<exists>db' err. (case u of Inl m' \<Rightarrow> Some (d, es @ [UpdatePdf pid (js ''failed'') (Some m')])
                       | Inr db3 \<Rightarrow> Some (db3, es @ [UpdatePdf pid (js ''failed'') None]))
                     = Some (db', es @ [UpdatePdf pid (js ''failed'') err])
           \<and> document_chunks db' = document_chunks d
           \<and> (err = None \<longrightarrow> pdfRowsOf d pid \<noteq> [] \<and>
                 pdfRowsOf db' pid = map (markFailed m) (pdfRowsOf d pid))"
proof (cases u)
  case (Inl m')
  then show ?thesis by simp
next
  case (Inr db3)
  have "document_chunks db3 = document_chunks d \<and> pdfRowsOf d pid \<noteq> [] \<and>
        pdfRowsOf db3 pid = map (markFailed m) (pdfRowsOf d pid)"
    by (rule updatePdf_Inr [of e g]) (simp_all add: assms Inr markFailed_def)
  then show ?thesis using Inr by simp
qed

text \<open>The three ways the job ends: \<open>ready\<close> written; \<open>ready\<close> refused and
  \<open>failed\<close> attempted; a job error and \<open>failed\<close> attempted.\<close>

lemma job_shape:
  assumes ing: "ingest e db h pid path = Some (r, db1, ev1)"
  shows "\<exists>db' us. processPdfInBackground e db h pid path = Some (db', ev1 @ us)
           \<and> document_chunks db' = document_chunks db1
           \<and> ((\<exists>n np. r = Inr (n, np) \<and> us = [UpdatePdf pid (js ''ready'') None]
                  \<and> pdfRowsOf db1 pid \<noteq> []
                  \<and> pdfRowsOf db' pid = map (markReady n np) (pdfRowsOf db1 pid))
              \<or> (\<exists>n np m err. r = Inr (n, np)
                  \<and> us = [UpdatePdf pid (js ''ready'') (Some m), UpdatePdf pid (js ''failed'') err]
                  \<and> (err = None \<longrightarrow> pdfRowsOf db1 pid \<noteq> [] \<and>
                        pdfRowsOf db' pid = map (markFailed m) (pdfRowsOf db1 pid)))
              \<or> (\<exists>m err. r = Inl m \<and> us = [UpdatePdf pid (js ''failed'') err]
                  \<and> (err = None \<longrightarrow> pdfRowsOf db1 pid \<noteq> [] \<and>
                        pdfRowsOf db' pid = map (markFailed m) (pdfRowsOf db1 pid))))"
proof (cases r)
  case (Inl m)
  obtain db' err where
    u: "(case updatePdf e (h @ ev1) db1 pid (markFailed m) of
           Inl m' \<Rightarrow> Some (db1, ev1 @ [UpdatePdf pid (js ''failed'') (Some m')])
         | Inr db3 \<Rightarrow> Some (db3, ev1 @ [UpdatePdf pid (js ''failed'') None]))
        = Some (db', ev1 @ [UpdatePdf pid (js ''failed'') err])"
    and c: "document_chunks db' = document_chunks db1"
    and f: "err = None \<longrightarrow> pdfRowsOf db1 pid \<noteq> [] \<and>
              pdfRowsOf db' pid = map (markFailed m) (pdfRowsOf db1 pid)"
    using failed_update [where e = e and g = "h @ ev1" and d = db1 and pid = pid and m = m
            and es = ev1, OF refl] by (elim exE conjE) (rule that)
  have run: "processPdfInBackground e db h pid path
               = Some (db', ev1 @ [UpdatePdf pid (js ''failed'') err])"
    using u by (simp add: processPdfInBackground_def ing Inl)
  show ?thesis
    apply (rule exI [of _ db'])
    apply (rule exI [of _ "[UpdatePdf pid (js ''failed'') err]"])
    using run c f Inl apply simp
    done
next
  case (Inr pr)
  obtain n np where pr: "pr = (n, np)" by (cases pr)
  show ?thesis
  proof (cases "updatePdf e (h @ ev1) db1 pid (markReady n np)")
    case ok: (Inr db2)
    have "document_chunks db2 = document_chunks db1 \<and> pdfRowsOf db1 pid \<noteq> [] \<and>
          pdfRowsOf db2 pid = map (markReady n np) (pdfRowsOf db1 pid)"
      by (rule updatePdf_Inr [of e "h @ ev1"]) (simp_all add: ok markReady_def)
    moreover have "processPdfInBackground e db h pid path
                     = Some (db2, ev1 @ [UpdatePdf pid (js ''ready'') None])"
      using ok by (simp add: processPdfInBackground_def ing Inr pr)
    ultimately show ?thesis
      apply -
      apply (rule exI [of _ db2])
      apply (rule exI [of _ "[UpdatePdf pid (js ''ready'') None]"])
      apply (simp add: Inr pr)
      done
  next
    case refused: (Inl m)
    let ?ev2 = "ev1 @ [UpdatePdf pid (js ''ready'') (Some m)]"
    obtain db' err where
      u: "(case updatePdf e (h @ ?ev2) db1 pid (markFailed m) of
             Inl m' \<Rightarrow> Some (db1, ?ev2 @ [UpdatePdf pid (js ''failed'') (Some m')])
           | Inr db3 \<Rightarrow> Some (db3, ?ev2 @ [UpdatePdf pid (js ''failed'') None]))
          = Some (db', ?ev2 @ [UpdatePdf pid (js ''failed'') err])"
      and c: "document_chunks db' = document_chunks db1"
      and f: "err = None \<longrightarrow> pdfRowsOf db1 pid \<noteq> [] \<and>
                pdfRowsOf db' pid = map (markFailed m) (pdfRowsOf db1 pid)"
      using failed_update [where e = e and g = "h @ ?ev2" and d = db1 and pid = pid and m = m
              and es = ?ev2, OF refl]
      by (elim exE conjE) (rule that)
    have run: "processPdfInBackground e db h pid path
                 = Some (db', ?ev2 @ [UpdatePdf pid (js ''failed'') err])"
      using u refused
      by (simp add: processPdfInBackground_def ing Inr pr)
    show ?thesis
      apply (rule exI [of _ db'])
      apply (rule exI [of _ "[UpdatePdf pid (js ''ready'') (Some m), UpdatePdf pid (js ''failed'') err]"])
      using run c f apply (simp add: Inr pr)
      done
  qed
qed


lemma update_events:
  "filter insertOk (ev1 @ [UpdatePdf i st err]) = filter insertOk ev1"
  "filter insertFailed (ev1 @ [UpdatePdf i st err]) = filter insertFailed ev1"
  "list_ex sourceFailed (ev1 @ [UpdatePdf i st err]) = list_ex sourceFailed ev1"
  "filter insertOk (ev1 @ [UpdatePdf i st err, UpdatePdf i' st' err']) = filter insertOk ev1"
  "filter insertFailed (ev1 @ [UpdatePdf i st err, UpdatePdf i' st' err']) = filter insertFailed ev1"
  "list_ex sourceFailed (ev1 @ [UpdatePdf i st err, UpdatePdf i' st' err']) = list_ex sourceFailed ev1"
  by simp_all

text \<open>
  The job always ends, and the chunk table has grown by the inserts the
  database accepted. When the file was read, the text was split, the API key
  is there and the database refused at most five inserts, the job reaches the
  update to \<open>ready\<close>. When the database has accepted that update, the rows of
  the document are those of before with status \<open>ready\<close>, the number of pages,
  and \<open>totalChunks\<close> the number of accepted inserts. A job error (of the stages,
  or a refused update to \<open>ready\<close>) ends with the update to \<open>failed\<close>; when the
  database has accepted it, the rows carry status \<open>failed\<close> and the message of
  that error. The error of a file that cannot be read is the reader's, that of
  a text that cannot be split is the chunker's with its prefix, and a sixth
  refused insert gives the message of line 215.
\<close>

lemma ingestion_outcome:
  "\<exists>r db1 ev1 db' evs.
     ingest e db h pid path = Some (r, db1, ev1)
   \<and> processPdfInBackground e db h pid path = Some (db', evs)
   \<and> length (document_chunks db') = length (document_chunks db) + length (filter insertOk evs)
   \<and> (\<not> list_ex sourceFailed evs \<and> truthy (apiKey e) \<and> length (filter insertFailed evs) \<le> 5
        \<longrightarrow> (\<exists>err. UpdatePdf pid (js ''ready'') err \<in> set evs))
   \<and> (UpdatePdf pid (js ''ready'') None \<in> set evs \<longrightarrow>
        pdfRowsOf db pid \<noteq> [] \<and>
        (\<exists>np. r = Inr (length (filter insertOk evs), np) \<and>
              pdfRowsOf db' pid
                = map (markReady (length (filter insertOk evs)) np) (pdfRowsOf db pid)))
   \<and> (\<forall>m. r = Inl m \<or> UpdatePdf pid (js ''ready'') (Some m) \<in> set evs \<longrightarrow>
        (\<exists>err. last evs = UpdatePdf pid (js ''failed'') err) \<and>
        (UpdatePdf pid (js ''failed'') None \<in> set evs \<longrightarrow>
           pdfRowsOf db pid \<noteq> [] \<and>
           pdfRowsOf db' pid = map (markFailed m) (pdfRowsOf db pid)))
   \<and> (\<forall>p m. ReadPdf p (Inl m) \<in> set evs \<longrightarrow> r = Inl m)
   \<and> (\<forall>t m. SplitText t (Inl m) \<in> set evs \<longrightarrow> r = Inl (msgChunkingFailed m))
   \<and> (5 < length (filter insertFailed evs) \<longrightarrow> r = Inl (msgTooManyFailures 6))"
proof -
  obtain r db1 ev1 where ing: "ingest e db h pid path = Some (r, db1, ev1)"
    and pdfs: "pdfs db1 = pdfs db"
    and len: "length (document_chunks db1)
                = length (document_chunks db) + length (filter insertOk ev1)"
    and cnt: "case r of Inr (n, np) \<Rightarrow> n = length (filter insertOk ev1) \<and>
                                        length (filter insertFailed ev1) \<le> 5
              | Inl m \<Rightarrow> True"
    and tol: "\<not> list_ex sourceFailed ev1 \<and> truthy (apiKey e) \<and>
              length (filter insertFailed ev1) \<le> 5 \<longrightarrow> (\<exists>n np. r = Inr (n, np))"
    and rd: "\<forall>p m. ReadPdf p (Inl m) \<in> set ev1 \<longrightarrow> r = Inl m"
    and sp: "\<forall>t m. SplitText t (Inl m) \<in> set ev1 \<longrightarrow> r = Inl (msgChunkingFailed m)"
    and many: "5 < length (filter insertFailed ev1) \<longrightarrow> r = Inl (msgTooManyFailures 6)"
    and nu: "\<forall>i st err. UpdatePdf i st err \<notin> set ev1"
    using ingest_result [of e db h pid path] by (elim exE conjE) (rule that)
  have rows: "pdfRowsOf db1 pid = pdfRowsOf db pid"
    by (simp add: pdfRowsOf_def pdfs)
  obtain db' us where run: "processPdfInBackground e db h pid path = Some (db', ev1 @ us)"
    and chunks: "document_chunks db' = document_chunks db1"
    and shape: "(\<exists>n np. r = Inr (n, np) \<and> us = [UpdatePdf pid (js ''ready'') None]
                  \<and> pdfRowsOf db1 pid \<noteq> []
                  \<and> pdfRowsOf db' pid = map (markReady n np) (pdfRowsOf db1 pid))
              \<or> (\<exists>n np m err. r = Inr (n, np)
                  \<and> us = [UpdatePdf pid (js ''ready'') (Some m), UpdatePdf pid (js ''failed'') err]
                  \<and> (err = None \<longrightarrow> pdfRowsOf db1 pid \<noteq> [] \<and>
                        pdfRowsOf db' pid = map (markFailed m) (pdfRowsOf db1 pid)))
              \<or> (\<exists>m err. r = Inl m \<and> us = [UpdatePdf pid (js ''failed'') err]
                  \<and> (err = None \<longrightarrow> pdfRowsOf db1 pid \<noteq> [] \<and>
                        pdfRowsOf db' pid = map (markFailed m) (pdfRowsOf db1 pid)))"
    using job_shape [OF ing] by (elim exE conjE) (rule that)
  let ?evs = "ev1 @ us"
  have us: "filter insertOk ?evs = filter insertOk ev1"
    "filter insertFailed ?evs = filter insertFailed ev1"
    "list_ex sourceFailed ?evs = list_ex sourceFailed ev1"
    using shape by (auto simp add: update_events)
  have c1: "length (document_chunks db')
              = length (document_chunks db) + length (filter insertOk ?evs)"
    by (simp only: us chunks len)
  have c2: "\<not> list_ex sourceFailed ?evs \<and> truthy (apiKey e) \<and>
            length (filter insertFailed ?evs) \<le> 5
              \<longrightarrow> (\<exists>err. UpdatePdf pid (js ''ready'') err \<in> set ?evs)"
    unfolding us using tol shape by auto
  have c3: "UpdatePdf pid (js ''ready'') None \<in> set ?evs \<longrightarrow>
        pdfRowsOf db pid \<noteq> [] \<and>
        (\<exists>np. r = Inr (length (filter insertOk ?evs), np) \<and>
              pdfRowsOf db' pid
                = map (markReady (length (filter insertOk ?evs)) np) (pdfRowsOf db pid))"
    unfolding us using shape cnt nu rows by (auto simp add: status_names)
  have c4: "\<forall>m. r = Inl m \<or> UpdatePdf pid (js ''ready'') (Some m) \<in> set ?evs \<longrightarrow>
        (\<exists>err. last ?evs = UpdatePdf pid (js ''failed'') err) \<and>
        (UpdatePdf pid (js ''failed'') None \<in> set ?evs \<longrightarrow>
           pdfRowsOf db pid \<noteq> [] \<and>
           pdfRowsOf db' pid = map (markFailed m) (pdfRowsOf db pid))"
    using shape nu rows by (auto simp add: status_names)
  have c5: "\<forall>p m. ReadPdf p (Inl m) \<in> set ?evs \<longrightarrow> r = Inl m"
    using shape rd by auto
  have c6: "\<forall>t m. SplitText t (Inl m) \<in> set ?evs \<longrightarrow> r = Inl (msgChunkingFailed m)"
    using shape sp by auto
  have c7: "5 < length (filter insertFailed ?evs) \<longrightarrow> r = Inl (msgTooManyFailures 6)"
    unfolding us using many by simp
  show ?thesis
    apply (rule exI [of _ r])
    apply (rule exI [of _ db1])
    apply (rule exI [of _ ev1])
    apply (rule exI [of _ db'])
    apply (rule exI [of _ ?evs])
    apply (intro conjI)
            apply (rule ing)
           apply (rule run)
          apply (rule c1)
         apply (rule c2)
        apply (rule c3)
       apply (rule c4)
      apply (rule c5)
     apply (rule c6)
    apply (rule c7)
    done
qed


lemma zeroVector_facts: "zeroVector \<noteq> []" "length zeroVector = 1024"
  by (simp_all add: zeroVector_def)

lemmas ingest_eval =
  embedBatch_def embedOneBatch_def embedText_def blank_def trim_def isWhiteSpace_def Let_def
  sampleEnv_def threeDimensions_def batchLoop.simps

lemma seven_vectors:
  "embedBatch threeDimensions h sevenTexts 50 =
     Some (Inr [Some [1 / 2, 1 / 2, 1 / 2], Some zeroVector, Some zeroVector, Some zeroVector,
                Some zeroVector, Some zeroVector, Some zeroVector],
           EmbeddingsFetch (Batch sevenTexts) (ENotOk 429 []) #
           EmbedTextCall (js ''c0'') #
           EmbeddingsFetch (Single (js ''c0'')) (EData (Some [Item (Some [1 / 2, 1 / 2, 1 / 2])]) []) #
           concat (map failedRetry [''c1'', ''c2'', ''c3'', ''c4'', ''c5'', ''c6'']))"
  by (simp add: ingest_eval sevenTexts_def failedRetry_def js_def)

lemma seven_chunks:
  "chunkText threeDimensions h (js ''text'') =
     (Inr [sampleChunk 0 ''c0'', sampleChunk 1 ''c1'', sampleChunk 2 ''c2'', sampleChunk 3 ''c3'',
           sampleChunk 4 ''c4'', sampleChunk 5 ''c5'', sampleChunk 6 ''c6''],
      [SplitText (js ''text'') (Inr sevenTexts)])"
  by (simp add: chunkText_def countTokens_def sampleChunk_def threeDimensions_def sampleEnv_def
        sevenTexts_def blank_def trim_def isWhiteSpace_def js_def Let_def)

lemma cast_refuses: "castError (vectorRow i c zeroVector) 3 = Some (msgCast 3 1024)"
  by (simp add: castError_def vectorRow_def chunkRowOf_def zeroVector_facts)

lemma cast_accepts: "castError (vectorRow i c [1 / 2, 1 / 2, 1 / 2]) 3 = None"
  by (simp add: castError_def vectorRow_def chunkRowOf_def)

lemma seven_inserts:
  "insertLoop threeDimensions h (js ''p1'') 3
     [Some [1 / 2, 1 / 2, 1 / 2], Some zeroVector, Some zeroVector, Some zeroVector,
      Some zeroVector, Some zeroVector, Some zeroVector]
     [sampleChunk 0 ''c0'', sampleChunk 1 ''c1'', sampleChunk 2 ''c2'', sampleChunk 3 ''c3'',
      sampleChunk 4 ''c4'', sampleChunk 5 ''c5'', sampleChunk 6 ''c6''] 0 uploadedDb 0 0 =
   (Inl (msgTooManyFailures 6),
    uploadedDb\<lparr>document_chunks := [vectorRow 0 ''c0'' [1 / 2, 1 / 2, 1 / 2]]\<rparr>,
    InsertChunk (vectorRow 0 ''c0'' [1 / 2, 1 / 2, 1 / 2]) None #
    map refusedInsert [(1, ''c1''), (2, ''c2''), (3, ''c3''), (4, ''c4''), (5, ''c5''),
                       (6, ''c6'')])"
proof -
  have refuses: "insertError threeDimensions h' row d = castError row d" for h' row d
    by (simp add: threeDimensions_def)
  have entry: "vectorAt [Some [1 / 2, 1 / 2, 1 / 2], Some zeroVector, Some zeroVector,
                      Some zeroVector, Some zeroVector, Some zeroVector, Some zeroVector] i
            = (if i = 0 then Some [1 / 2, 1 / 2, 1 / 2] else if i < 7 then Some zeroVector else None)"
    for i
    by (cases i) (auto simp add: vectorAt_def nth_Cons' less_Suc_eq)
  show ?thesis
    by (simp add: refuses entry vectorRow_def [symmetric] cast_refuses cast_accepts refusedInsert_def
          uploadedDb_def Let_def del: One_nat_def)
qed

lemma seven_ingest:
  "ingest threeDimensions uploadedDb [] (js ''p1'') (js ''a.pdf'') =
     Some (Inl (msgTooManyFailures 6),
           uploadedDb\<lparr>document_chunks := [vectorRow 0 ''c0'' [1 / 2, 1 / 2, 1 / 2]]\<rparr>,
           loopRun)"
proof -
  have rd: "readPdf threeDimensions [] (js ''a.pdf'') = Inr (js ''text'', 1)"
    by (simp add: threeDimensions_def sampleEnv_def)
  have dimension: "actualDimension [Some [1 / 2, 1 / 2, 1 / 2], Some zeroVector, Some zeroVector,
      Some zeroVector, Some zeroVector, Some zeroVector, Some zeroVector] = 3"
    by (simp add: actualDimension_def vectorAt_def)
  have texts: "tc_content (sampleChunk i c) = js c" for i c
    by (simp add: sampleChunk_def)
  have seven: "[js ''c0'', js ''c1'', js ''c2'', js ''c3'', js ''c4'', js ''c5'', js ''c6'']
                 = sevenTexts"
    by (simp add: sevenTexts_def)
  show ?thesis
    by (simp add: ingest_def rd seven_chunks texts seven seven_vectors dimension seven_inserts
          loopRun_def Let_def del: One_nat_def insertLoop.simps)
qed

text \<open>
  Claim C9 does not hold of the code where the model has another dimension
  than 1024. The batch fails and, of seven chunks, only the first is embedded
  on retry, with three entries; the other six get 1024 zeros (line 638). The
  dimension of the cast is that of the first vector, 3 (line 156), the
  database refuses the six vectors of 1024 entries, and the sixth refusal
  throws (line 215). The file was read, the text was split and the API key is
  there, and the document ends \<open>failed\<close>, with one chunk stored.
\<close>

theorem zero_vectors_fail_the_job:
  "processPdfInBackground threeDimensions uploadedDb [] (js ''p1'') (js ''a.pdf'') =
     Some (\<lparr>pdfs = [samplePdf\<lparr>status := js ''failed'', totalChunks := 0,
                               errorMessage := Some (msgTooManyFailures 6)\<rparr>],
            document_chunks = [vectorRow 0 ''c0'' [1 / 2, 1 / 2, 1 / 2]]\<rparr>,
           rejectedRun)
   \<and> length (filter insertFailed rejectedRun) = 6
   \<and> length (filter insertOk rejectedRun) = 1"
proof -
  have message: "msgTooManyFailures 6 \<noteq> []" by (simp add: msgTooManyFailures_def)
  have run: "processPdfInBackground threeDimensions uploadedDb [] (js ''p1'') (js ''a.pdf'') =
     Some (\<lparr>pdfs = [samplePdf\<lparr>status := js ''failed'', totalChunks := 0,
                               errorMessage := Some (msgTooManyFailures 6)\<rparr>],
            document_chunks = [vectorRow 0 ''c0'' [1 / 2, 1 / 2, 1 / 2]]\<rparr>,
           rejectedRun)"
    by (simp only: processPdfInBackground_def seven_ingest)
       (simp add: updatePdf_def markFailed_def message uploadedDb_def samplePdf_def
          threeDimensions_def sampleEnv_def rejectedRun_def)
  have "length (filter insertFailed rejectedRun) = 6" "length (filter insertOk rejectedRun) = 1"
    by (simp_all add: rejectedRun_def loopRun_def failedRetry_def refusedInsert_def)
  then show ?thesis using run by simp
qed

end
